theory Spec2Isabelle
  imports Complex_Main
begin

section \<open>The relational store\<close>

text \<open>
  The handlers of \<^verbatim>\<open>routes/waitlist.js\<close>, \<^verbatim>\<open>routes/tickets.js\<close> and
  \<^verbatim>\<open>routes/ticketTypes.js\<close> are sequences of SQL statements against the tables of one store. Each
  table is a list of rows (a record per row, one field per column the handlers read or
  write), a statement is a function on the store, and a handler returns its HTTP answer
  together with the store it leaves behind. Statements run one after the other: the model is
  the sequential behaviour of one request at a time, so \<^verbatim>\<open>FOR UPDATE SKIP LOCKED\<close> never
  finds a locked row.

  The schema is not part of the repository. Primary keys are taken from one sequence per
  table (the \<^verbatim>\<open>next_*_id\<close> fields), \<^verbatim>\<open>issued_at\<close> and \<^verbatim>\<open>joined_at\<close> default to the time of the
  insert, and \<^verbatim>\<open>offered_at\<close> and \<^verbatim>\<open>reservation_expires_at\<close> default to NULL. Time is a number of
  seconds, handed to every handler as \<open>now\<close>. An amount in a \<^verbatim>\<open>NUMERIC\<close> column is an
  exact rational; where a handler writes a JavaScript number into such a column the row
  holds that number (the column's decimal text reads back as the same number).
\<close>

datatype ticket_status = Active | Reserved | PendingReturn | Refunded

datatype transaction_status = Pending | Completed | Cancelled | Expired | TxRefunded

datatype payment_method = Card | Paypal | Waitlist | WaitlistReturn

record event =
  e_id :: nat
  e_organizer_id :: nat
  e_total_tickets :: int
  e_tickets_sold :: int
  e_start_datetime :: int
  e_end_datetime :: "int option"

record ticket_type =
  tt_id :: nat
  tt_event_id :: nat
  tt_price :: rat
  tt_total_tickets :: int
  tt_tickets_sold :: int

record ticket =
  t_id :: nat
  t_transaction_id :: nat
  t_ticket_type_id :: nat
  t_event_id :: nat
  t_user_id :: nat
  t_status :: ticket_status
  t_issued_at :: int

record transaction =
  tx_id :: nat
  tx_user_id :: nat
  tx_total_price :: rat
  tx_status :: transaction_status
  tx_payment_method :: payment_method

record waitlist_entry =
  w_id :: nat
  w_user_id :: nat
  w_event_id :: nat
  w_joined_at :: int
  w_offered_at :: "int option"
  w_reservation_expires_at :: "int option"

record db =
  users :: "nat list"
  events :: "event list"
  ticket_types :: "ticket_type list"
  tickets :: "ticket list"
  transactions :: "transaction list"
  waitlist :: "waitlist_entry list"
  next_ticket_id :: nat
  next_transaction_id :: nat
  next_waitlist_id :: nat

text \<open>
  The answers of the handlers. An error is the HTTP status the handler sends, named as the
  specification names it: 404 is \<open>NotFound\<close>, 403 \<open>Forbidden\<close>, 409 \<open>DuplicateEntry\<close>,
  410 \<open>ReservationExpired\<close>; the 400 answers are told apart by their message; an exception
  that reaches \<^verbatim>\<open>next(err)\<close> is \<open>InternalError\<close>.
\<close>

datatype error =
  NotFound | InvalidState | Forbidden | DuplicateEntry | NotSoldOut | EventEnded
  | ReservationExpired | BadRequest | InternalError

subsection \<open>SQL statements\<close>

text \<open>\<^verbatim>\<open>ORDER BY k ASC LIMIT 1\<close>: the first row with the least key, in table order among equals.\<close>

fun earliest :: "('a \<Rightarrow> int) \<Rightarrow> 'a list \<Rightarrow> 'a option" where
  "earliest k [] = None"
| "earliest k (x # xs) =
     (case earliest k xs of
        None \<Rightarrow> Some x
      | Some y \<Rightarrow> if k x \<le> k y then Some x else Some y)"

definition set_transaction_status :: "nat \<Rightarrow> transaction_status \<Rightarrow> db \<Rightarrow> db" where
  "set_transaction_status i st s =
     s\<lparr>transactions := map (\<lambda>x. if tx_id x = i then x\<lparr>tx_status := st\<rparr> else x) (transactions s)\<rparr>"

definition set_ticket_status :: "nat \<Rightarrow> ticket_status \<Rightarrow> db \<Rightarrow> db" where
  "set_ticket_status i st s =
     s\<lparr>tickets := map (\<lambda>t. if t_id t = i then t\<lparr>t_status := st\<rparr> else t) (tickets s)\<rparr>"

definition delete_ticket :: "nat \<Rightarrow> db \<Rightarrow> db" where
  "delete_ticket i s = s\<lparr>tickets := filter (\<lambda>t. t_id t \<noteq> i) (tickets s)\<rparr>"

definition delete_waitlist_id :: "nat \<Rightarrow> db \<Rightarrow> db" where
  "delete_waitlist_id i s = s\<lparr>waitlist := filter (\<lambda>w. w_id w \<noteq> i) (waitlist s)\<rparr>"

definition delete_waitlist_user_event :: "nat \<Rightarrow> nat \<Rightarrow> db \<Rightarrow> db" where
  "delete_waitlist_user_event u e s =
     s\<lparr>waitlist := filter (\<lambda>w. \<not> (w_user_id w = u \<and> w_event_id w = e)) (waitlist s)\<rparr>"

definition insert_transaction ::
  "nat \<Rightarrow> rat \<Rightarrow> transaction_status \<Rightarrow> payment_method \<Rightarrow> db \<Rightarrow> nat \<times> db" where
  "insert_transaction u p st pm s =
     (next_transaction_id s,
      s\<lparr>transactions := transactions s @
           [\<lparr>tx_id = next_transaction_id s, tx_user_id = u, tx_total_price = p,
             tx_status = st, tx_payment_method = pm\<rparr>],
        next_transaction_id := Suc (next_transaction_id s)\<rparr>)"

definition insert_ticket ::
  "nat \<Rightarrow> nat \<Rightarrow> nat \<Rightarrow> nat \<Rightarrow> ticket_status \<Rightarrow> int \<Rightarrow> db \<Rightarrow> db" where
  "insert_ticket txid ttid ev u st now s =
     s\<lparr>tickets := tickets s @
           [\<lparr>t_id = next_ticket_id s, t_transaction_id = txid, t_ticket_type_id = ttid,
             t_event_id = ev, t_user_id = u, t_status = st, t_issued_at = now\<rparr>],
        next_ticket_id := Suc (next_ticket_id s)\<rparr>"

section \<open>JavaScript numbers\<close>

text \<open>
  The handlers compute refunds and totals on JavaScript numbers, IEEE 754 doubles. A finite
  double is modelled by its exact value, a rational; an operation on doubles is the exact
  operation followed by rounding to the nearest double. The model has no infinity and no
  NaN: it follows the handlers on amounts below \<open>2 ^ 1024\<close> in magnitude.
\<close>

text \<open>Rounding to the nearest integer, ties to the even one.\<close>

definition round_half_even :: "rat \<Rightarrow> int" where
  "round_half_even q =
     (let f = \<lfloor>q\<rfloor>; r = q - of_int f
      in if r < 1 / 2 then f
         else if 1 / 2 < r then f + 1
         else if even f then f else f + 1)"

text \<open>The power of two \<open>2 ^ e\<close>, for an exponent of either sign.\<close>

definition pow2 :: "int \<Rightarrow> rat" where
  "pow2 e = (if 0 \<le> e then 2 ^ nat e else 1 / 2 ^ nat (- e))"

text \<open>
  The significand and the exponent of a positive number: it is halved while it is \<open>2 ^ 53\<close> or
  more and doubled while it is below \<open>2 ^ 52\<close>, down to the exponent -1074 of the subnormal
  numbers.
\<close>

function normalise_down :: "rat \<Rightarrow> int \<Rightarrow> rat \<times> int" where
  "normalise_down y e =
     (if 2 ^ 53 \<le> y then normalise_down (y / 2) (e + 1) else (y, e))"
  by pat_completeness auto
termination
proof (relation "measure (\<lambda>(y, e). nat \<lfloor>y\<rfloor>)")
  show "wf (measure (\<lambda>(y::rat, e::int). nat \<lfloor>y\<rfloor>))"
    by simp
next
  fix y :: rat and e :: int
  assume y: "2 ^ 53 \<le> y"
  then have "y / 2 \<le> y - 1" by simp
  then have "\<lfloor>y / 2\<rfloor> \<le> \<lfloor>y - 1\<rfloor>" by (rule floor_mono)
  moreover from y have "1 \<le> \<lfloor>y\<rfloor>" by (simp add: le_floor_iff)
  ultimately show "((y / 2, e + 1), (y, e)) \<in> measure (\<lambda>(y, e). nat \<lfloor>y\<rfloor>)"
    by simp
qed

function normalise_up :: "rat \<Rightarrow> int \<Rightarrow> rat \<times> int" where
  "normalise_up y e =
     (if 0 < y \<and> y < 2 ^ 52 \<and> - 1074 < e
      then normalise_up (2 * y) (e - 1) else (y, e))"
  by pat_completeness auto
termination
proof (relation "measure (\<lambda>(y, e). nat \<lceil>2 ^ 52 / y\<rceil>)")
  show "wf (measure (\<lambda>(y::rat, e::int). nat \<lceil>2 ^ 52 / y\<rceil>))"
    by simp
next
  fix y :: rat and e :: int
  assume "0 < y \<and> y < 2 ^ 52 \<and> - 1074 < e"
  then have y: "0 < y" "y < 2 ^ 52" by simp_all
  define z where "z = 2 ^ 52 / y"
  from y have z: "1 < z" by (simp add: z_def)
  then have c: "2 \<le> \<lceil>z\<rceil>" by (simp add: le_ceiling_iff)
  have a: "z \<le> of_int \<lceil>z\<rceil>" by (rule le_of_int_ceiling)
  from c have b: "(2::rat) \<le> of_int \<lceil>z\<rceil>"
    by (metis of_int_le_iff of_int_numeral)
  from a b have "z / 2 \<le> of_int \<lceil>z\<rceil> - 1" by linarith
  then have "z / 2 \<le> of_int (\<lceil>z\<rceil> - 1)" by simp
  then have le: "\<lceil>z / 2\<rceil> \<le> \<lceil>z\<rceil> - 1" by (simp only: ceiling_le_iff)
  have eq: "2 ^ 52 / (2 * y) = z / 2" by (simp add: z_def)
  have lt: "\<lceil>2 ^ 52 / (2 * y)\<rceil> < \<lceil>2 ^ 52 / y\<rceil>"
    unfolding eq z_def [symmetric] using le by linarith
  have pos: "0 < \<lceil>2 ^ 52 / y\<rceil>"
    unfolding z_def [symmetric] using c by linarith
  from lt pos show "((2 * y, e - 1), (y, e)) \<in> measure (\<lambda>(y, e). nat \<lceil>2 ^ 52 / y\<rceil>)"
    by (simp only: in_measure split_conv zless_nat_conj simp_thms)
qed

declare normalise_down.simps [simp del] normalise_up.simps [simp del]

text \<open>
  The number value of a real quantity: the significand rounded to an integer, ties to even,
  times the power of two. This is what \<^verbatim>\<open>parseFloat\<close> and \<^verbatim>\<open>Number\<close> make of the decimal text of
  a \<^verbatim>\<open>NUMERIC\<close> column, what the literal \<^verbatim>\<open>0.02\<close> denotes, and what \<^verbatim>\<open>*\<close> and \<^verbatim>\<open>-\<close> make of
  the exact product and difference of two numbers.
\<close>

definition to_double :: "rat \<Rightarrow> rat" where
  "to_double x =
     (if x = 0 then 0
      else (let (y1, e1) = normalise_down \<bar>x\<bar> 0;
                (y, e) = normalise_up y1 e1
            in sgn x * of_int (round_half_even y) * pow2 e))"

text \<open>
  \<^verbatim>\<open>x.toFixed(2)\<close>, as the value of the decimal text it returns: the multiple of 0.01 nearest
  to the exact value of the number, the larger in magnitude of two equally near. (From
  \<open>10 ^ 21\<close> on \<^verbatim>\<open>toFixed\<close> answers in exponent notation; the model does not.)
\<close>

definition to_fixed2 :: "rat \<Rightarrow> rat" where
  "to_fixed2 x = sgn x * of_int \<lfloor>\<bar>x\<bar> * 100 + 1 / 2\<rfloor> / 100"

section \<open>The offer engine: assignTicketToWaitlist\<close>

datatype assign_result = NotAssigned | Assigned nat nat

fun assigned :: "assign_result \<Rightarrow> bool" where
  "assigned NotAssigned = False"
| "assigned (Assigned u x) = True"

text \<open>The price of a ticket type, \<^verbatim>\<open>rows[0]?.price || 0\<close>.\<close>

definition price_of :: "nat \<Rightarrow> db \<Rightarrow> rat" where
  "price_of ttid s =
     (case find (\<lambda>tt. tt_id tt = ttid) (ticket_types s) of
        None \<Rightarrow> 0
      | Some tt \<Rightarrow> tt_price tt)"

text \<open>
  The first entry of the event that has no offer yet, by \<^verbatim>\<open>joined_at\<close>; the ticket type plays
  no part in the choice.
\<close>

definition next_unclaimed :: "nat \<Rightarrow> db \<Rightarrow> waitlist_entry option" where
  "next_unclaimed ev s =
     earliest w_joined_at
       (filter (\<lambda>w. w_event_id w = ev \<and> w_offered_at w = None) (waitlist s))"

definition stamp_offer :: "nat \<Rightarrow> int \<Rightarrow> db \<Rightarrow> db" where
  "stamp_offer i now s =
     s\<lparr>waitlist :=
         map (\<lambda>w. if w_id w = i
                   then w\<lparr>w_offered_at := Some now, w_reservation_expires_at := Some (now + 1800)\<rparr>
                   else w) (waitlist s)\<rparr>"

definition assignTicketToWaitlist :: "nat \<Rightarrow> nat \<Rightarrow> int \<Rightarrow> db \<Rightarrow> assign_result \<times> db" where
  "assignTicketToWaitlist event_id ticket_type_id now s =
     (case next_unclaimed event_id s of
        None \<Rightarrow> (NotAssigned, s)
      | Some waitlistUser \<Rightarrow>
          (let price = price_of ticket_type_id s;
               s1 = stamp_offer (w_id waitlistUser) now s;
               (transaction_id, s2) =
                  insert_transaction (w_user_id waitlistUser) price Pending Waitlist s1;
               s3 = insert_ticket transaction_id ticket_type_id event_id
                      (w_user_id waitlistUser) Reserved now s2
           in (Assigned (w_user_id waitlistUser) transaction_id, s3)))"

section \<open>The expiration sweep: cleanupExpiredReservations\<close>

text \<open>
  One row of the sweep's query: a reserved ticket whose transaction is pending, joined with
  a waitlist entry of the same user and event whose \<^verbatim>\<open>reservation_expires_at\<close> is set and
  lies before \<open>now\<close>. Rows come in table order.
\<close>

definition entry_expired :: "int \<Rightarrow> waitlist_entry \<Rightarrow> bool" where
  "entry_expired now w =
     (case w_reservation_expires_at w of None \<Rightarrow> False | Some x \<Rightarrow> x < now)"

definition expired_rows :: "int \<Rightarrow> db \<Rightarrow> (ticket \<times> nat) list" where
  "expired_rows now s =
     [(t, w_id w).
        t \<leftarrow> tickets s, tx \<leftarrow> transactions s, w \<leftarrow> waitlist s,
        t_transaction_id t = tx_id tx
        \<and> w_user_id w = t_user_id t \<and> w_event_id w = t_event_id t
        \<and> t_status t = Reserved \<and> tx_status tx = Pending \<and> entry_expired now w]"

text \<open>
  The body of the loop over the rows found. First the rollback of the row: expire the
  transaction, delete the ticket, delete the entry (\<^verbatim>\<open>if (expiredTicket.waitlist_id)\<close> is
  JavaScript truthiness: a non-zero id). Then the slot is offered to the next entry.
\<close>

definition expire_row :: "ticket \<times> nat \<Rightarrow> db \<Rightarrow> db" where
  "expire_row r s =
     (let expiredTicket = fst r; waitlist_id = snd r;
          s1 = set_transaction_status (t_transaction_id expiredTicket) Expired s;
          s2 = delete_ticket (t_id expiredTicket) s1
      in if waitlist_id \<noteq> 0 then delete_waitlist_id waitlist_id s2 else s2)"

definition cleanup_row :: "int \<Rightarrow> ticket \<times> nat \<Rightarrow> db \<Rightarrow> db" where
  "cleanup_row now r s =
     snd (assignTicketToWaitlist (t_event_id (fst r)) (t_ticket_type_id (fst r)) now
            (expire_row r s))"

definition cleanupExpiredReservations :: "int \<Rightarrow> db \<Rightarrow> nat \<times> db" where
  "cleanupExpiredReservations now s =
     (let rows = expired_rows now s
      in if rows = [] then (0, s)
         else (length rows, fold (cleanup_row now) rows s))"

section \<open>The waitlist queue: POST /waitlist and DELETE /waitlist/:id\<close>


text \<open>\<^verbatim>\<open>validateNumber(value, name, 1, 2147483647)\<close> on an identifier.\<close>

definition valid_id :: "nat \<Rightarrow> bool" where
  "valid_id i = (1 \<le> i \<and> i \<le> 2147483647)"

text \<open>\<^verbatim>\<open>new Date(event.end_datetime || event.start_datetime)\<close>.\<close>

definition event_end_time :: "event \<Rightarrow> int" where
  "event_end_time e = (case e_end_datetime e of None \<Rightarrow> e_start_datetime e | Some x \<Rightarrow> x)"




section \<open>Accepting an offer: POST /waitlist/accept-ticket/:transaction_id\<close>

record accept_response =
  accepted_ticket :: ticket
  refunded_ticket_id :: "nat option"
  refund_amount :: rat
  platform_fee :: rat

text \<open>
  The handler's own expiry check: the first entry of the transaction's user and the
  ticket's event, if it has both timestamps and \<^verbatim>\<open>expiresAt < now\<close>.
\<close>

definition offer_expired :: "nat \<Rightarrow> nat \<Rightarrow> int \<Rightarrow> db \<Rightarrow> bool" where
  "offer_expired u ev now s =
     (case filter (\<lambda>w. w_user_id w = u \<and> w_event_id w = ev) (waitlist s) of
        [] \<Rightarrow> False
      | waitlistEntry # _ \<Rightarrow>
          (case (w_offered_at waitlistEntry, w_reservation_expires_at waitlistEntry) of
             (Some offeredAt, Some expiresAt) \<Rightarrow> expiresAt < now
           | _ \<Rightarrow> False))"

definition pending_return_of_type :: "nat \<Rightarrow> nat \<Rightarrow> db \<Rightarrow> ticket option" where
  "pending_return_of_type ev ttid s =
     earliest t_issued_at
       (filter (\<lambda>t. t_event_id t = ev \<and> t_ticket_type_id t = ttid \<and> t_status t = PendingReturn)
          (tickets s))"

text \<open>
  Every statement of the handler runs on the pool, outside any SQL transaction, so the
  writes made before an answer stay. \<^verbatim>\<open>originalTx.rows[0].total_price\<close> throws when the
  returned ticket's transaction is missing, after the first two updates. The refund is
  computed on numbers: \<^verbatim>\<open>parseFloat(total_price)\<close>, \<^verbatim>\<open>originalPrice * 0.02\<close> and
  \<^verbatim>\<open>originalPrice - platformFee\<close>; the answer carries the refund as a number and the fee as
  \<^verbatim>\<open>platformFee.toFixed(2)\<close>.
\<close>

definition acceptTicket :: "nat \<Rightarrow> int \<Rightarrow> db \<Rightarrow> (error + accept_response) \<times> db" where
  "acceptTicket transaction_id now s =
     (case filter (\<lambda>x. tx_id x = transaction_id \<and> tx_status x = Pending
                        \<and> tx_payment_method x = Waitlist) (transactions s) of
        [] \<Rightarrow> (Inl NotFound, s)
      | transaction # _ \<Rightarrow>
     (case filter (\<lambda>t. t_transaction_id t = transaction_id \<and> t_status t = Reserved) (tickets s) of
        [] \<Rightarrow> (Inl NotFound, s)
      | ticket # _ \<Rightarrow>
          if offer_expired (tx_user_id transaction) (t_event_id ticket) now s
          then
            (let s1 = set_transaction_status transaction_id Expired s;
                 s2 = delete_ticket (t_id ticket) s1
             in (Inl ReservationExpired,
                 snd (assignTicketToWaitlist (t_event_id ticket) (t_ticket_type_id ticket) now s2)))
          else
            (let pendingReturnTicket =
                   pending_return_of_type (t_event_id ticket) (t_ticket_type_id ticket) s;
                 s1 = set_transaction_status transaction_id Completed s;
                 s2 = set_ticket_status (t_id ticket) Active s1
             in case pendingReturnTicket of
                  None \<Rightarrow>
                    (Inr \<lparr>accepted_ticket = ticket, refunded_ticket_id = None,
                          refund_amount = 0, platform_fee = 0\<rparr>,
                     delete_waitlist_user_event (tx_user_id transaction) (t_event_id ticket) s2)
                | Some returnedTicket \<Rightarrow>
                    (case filter (\<lambda>x. tx_id x = t_transaction_id returnedTicket)
                            (transactions s2) of
                       [] \<Rightarrow> (Inl InternalError, s2)
                     | originalTx # _ \<Rightarrow>
                         (let originalPrice = to_double (tx_total_price originalTx);
                              platformFee = to_double (originalPrice * to_double (2 / 100));
                              refundAmount = to_double (originalPrice - platformFee);
                              s3 = set_ticket_status (t_id returnedTicket) Refunded s2;
                              s4 = snd (insert_transaction (t_user_id returnedTicket)
                                          (- refundAmount) TxRefunded WaitlistReturn s3)
                          in (Inr \<lparr>accepted_ticket = ticket,
                                    refunded_ticket_id = Some (t_id returnedTicket),
                                    refund_amount = refundAmount,
                                    platform_fee = to_fixed2 platformFee\<rparr>,
                              delete_waitlist_user_event (tx_user_id transaction)
                                (t_event_id ticket) s4))))))"

section \<open>The inventory ledger: tickets and ticket types\<close>

text \<open>
  The statement every synchronising handler ends with: the event's two aggregates are
  recomputed as \<^verbatim>\<open>COALESCE(SUM(...), 0)\<close> over the event's ticket types.
\<close>

definition sum_sold :: "nat \<Rightarrow> db \<Rightarrow> int" where
  "sum_sold ev s = sum_list (map tt_tickets_sold (filter (\<lambda>tt. tt_event_id tt = ev) (ticket_types s)))"

definition sum_total :: "nat \<Rightarrow> db \<Rightarrow> int" where
  "sum_total ev s = sum_list (map tt_total_tickets (filter (\<lambda>tt. tt_event_id tt = ev) (ticket_types s)))"

definition sync_event :: "nat \<Rightarrow> db \<Rightarrow> db" where
  "sync_event ev s =
     s\<lparr>events := map (\<lambda>e. if e_id e = ev
                           then e\<lparr>e_tickets_sold := sum_sold ev s, e_total_tickets := sum_total ev s\<rparr>
                           else e) (events s)\<rparr>"

subsection \<open>POST /tickets\<close>

record purchase_response =
  p_transaction_id :: nat
  p_total_price :: rat
  p_quantity :: nat
  p_payment_method :: payment_method

text \<open>\<open>quantity\<close> copies of an active ticket, each with the next id of the sequence.\<close>

fun insert_tickets :: "nat \<Rightarrow> nat \<Rightarrow> nat \<Rightarrow> nat \<Rightarrow> nat \<Rightarrow> int \<Rightarrow> db \<Rightarrow> db" where
  "insert_tickets 0 txid ttid ev u now s = s"
| "insert_tickets (Suc n) txid ttid ev u now s =
     insert_tickets n txid ttid ev u now (insert_ticket txid ttid ev u Active now s)"

text \<open>
  The handler runs inside \<^verbatim>\<open>BEGIN\<close> ... \<^verbatim>\<open>COMMIT\<close> and rolls back before every error answer, so
  an error leaves the store as it was. The ticket type is looked up by its id alone: the
  handler never checks that it belongs to the event of the request.
\<close>

definition purchaseTickets ::
  "nat \<Rightarrow> nat \<Rightarrow> nat \<Rightarrow> nat \<Rightarrow> payment_method option \<Rightarrow> int \<Rightarrow> db
     \<Rightarrow> (error + purchase_response) \<times> db" where
  "purchaseTickets user_id event_id ticket_type_id quantity pm now s =
     (if \<not> valid_id event_id \<or> \<not> valid_id ticket_type_id \<or> quantity < 1 \<or> 10 < quantity
      then (Inl BadRequest, s)
      else if user_id \<notin> set (users s) then (Inl NotFound, s)
      else case find (\<lambda>e. e_id e = event_id) (events s) of
        None \<Rightarrow> (Inl NotFound, s)
      | Some ev \<Rightarrow>
          if event_end_time ev < now then (Inl EventEnded, s)
          else case find (\<lambda>tt. tt_id tt = ticket_type_id) (ticket_types s) of
            None \<Rightarrow> (Inl NotFound, s)
          | Some tt \<Rightarrow>
              if tt_total_tickets tt - tt_tickets_sold tt < int quantity then (Inl BadRequest, s)
              else
                (let total_price = to_double (to_double (tt_price tt) * of_nat quantity);
                     pay_method = (case pm of None \<Rightarrow> Card | Some m \<Rightarrow> m);
                     (transaction_id, s1) = insert_transaction user_id total_price Completed pay_method s;
                     s2 = insert_tickets quantity transaction_id ticket_type_id event_id user_id now s1;
                     s3 = s2\<lparr>ticket_types :=
                               map (\<lambda>t. if tt_id t = ticket_type_id
                                         then t\<lparr>tt_tickets_sold := tt_tickets_sold t + int quantity\<rparr>
                                         else t) (ticket_types s2)\<rparr>;
                     s4 = sync_event event_id s3
                 in (Inr \<lparr>p_transaction_id = transaction_id, p_total_price = total_price,
                           p_quantity = quantity, p_payment_method = pay_method\<rparr>, s4)))"

subsection \<open>PUT /tickets/:id/refund\<close>

text \<open>
  The row both refund handlers start from: the ticket joined with its event (an inner
  join: no event, no row).
\<close>

definition ticket_with_event :: "nat \<Rightarrow> db \<Rightarrow> (ticket \<times> event) option" where
  "ticket_with_event i s =
     (case find (\<lambda>t. t_id t = i) (tickets s) of
        None \<Rightarrow> None
      | Some t \<Rightarrow>
          (case find (\<lambda>e. e_id e = t_event_id t) (events s) of
             None \<Rightarrow> None
           | Some e \<Rightarrow> Some (t, e)))"

record refund_response =
  r_ticket :: "ticket option"
  r_assigned_to_waitlist :: bool

definition refundTicket :: "nat \<Rightarrow> int \<Rightarrow> db \<Rightarrow> (error + refund_response) \<times> db" where
  "refundTicket i now s =
     (case ticket_with_event i s of
        None \<Rightarrow> (Inl NotFound, s)
      | Some (ticket, ev) \<Rightarrow>
          if t_status ticket \<noteq> Active then (Inl InvalidState, s)
          else
            (let isSoldOut = (e_tickets_sold ev \<ge> e_total_tickets ev)
             in if \<not> isSoldOut then (Inl NotSoldOut, s)
                else
                  (let s1 = set_ticket_status i PendingReturn s;
                       (waitlistAssignment, s2) =
                          assignTicketToWaitlist (t_event_id ticket) (t_ticket_type_id ticket) now s1
                   in (Inr \<lparr>r_ticket = find (\<lambda>t. t_id t = i) (tickets s1),
                             r_assigned_to_waitlist = assigned waitlistAssignment\<rparr>, s2))))"

subsection \<open>PUT /tickets/:id/organizer-refund\<close>

record organizer_refund_response =
  o_ticket_id :: nat
  o_event_id :: nat
  o_tickets_available :: int
  o_waitlist_assigned :: bool

definition decrement_event_sold :: "nat \<Rightarrow> db \<Rightarrow> db" where
  "decrement_event_sold ev s =
     s\<lparr>events := map (\<lambda>e. if e_id e = ev then e\<lparr>e_tickets_sold := e_tickets_sold e - 1\<rparr> else e)
                    (events s)\<rparr>"

definition decrement_type_sold :: "nat \<Rightarrow> db \<Rightarrow> db" where
  "decrement_type_sold ttid s =
     s\<lparr>ticket_types :=
         map (\<lambda>t. if tt_id t = ttid then t\<lparr>tt_tickets_sold := tt_tickets_sold t - 1\<rparr> else t)
           (ticket_types s)\<rparr>"

definition organizerRefund ::
  "nat \<Rightarrow> nat \<Rightarrow> int \<Rightarrow> db \<Rightarrow> (error + organizer_refund_response) \<times> db" where
  "organizerRefund i organizer_id now s =
     (case ticket_with_event i s of
        None \<Rightarrow> (Inl NotFound, s)
      | Some (ticket, ev) \<Rightarrow>
          if e_organizer_id ev \<noteq> organizer_id then (Inl Forbidden, s)
          else if t_status ticket \<noteq> Active then (Inl InvalidState, s)
          else
            (let isSoldOut = (e_tickets_sold ev \<ge> e_total_tickets ev);
                 s1 = set_ticket_status i Refunded s;
                 s2 = decrement_event_sold (t_event_id ticket) s1;
                 s3 = decrement_type_sold (t_ticket_type_id ticket) s2;
                 s4 = set_transaction_status (t_transaction_id ticket) TxRefunded s3;
                 (waitlistAssigned, s5) =
                    (if isSoldOut
                     then (let (waitlistAssignment, s') =
                                  assignTicketToWaitlist (t_event_id ticket)
                                    (t_ticket_type_id ticket) now s4
                           in (assigned waitlistAssignment, s'))
                     else (False, s4))
             in (Inr \<lparr>o_ticket_id = i, o_event_id = t_event_id ticket,
                       o_tickets_available = e_total_tickets ev - (e_tickets_sold ev - 1),
                       o_waitlist_assigned = waitlistAssigned\<rparr>, s5)))"

subsection \<open>DELETE /tickets/:id\<close>

definition deleteTicket :: "nat \<Rightarrow> db \<Rightarrow> (error + ticket) \<times> db" where
  "deleteTicket i s =
     (case filter (\<lambda>t. t_id t = i) (tickets s) of
        [] \<Rightarrow> (Inl NotFound, s)
      | deleted # _ \<Rightarrow> (Inr deleted, delete_ticket i s))"

subsection \<open>PUT /ticket-types/:id/recount and POST /ticket-types/sync-all\<close>

text \<open>\<^verbatim>\<open>SELECT COUNT(*) FROM tickets WHERE ticket_type_id = $1\<close>: no condition on the status.\<close>

definition count_tickets :: "nat \<Rightarrow> db \<Rightarrow> int" where
  "count_tickets ttid s = int (length (filter (\<lambda>t. t_ticket_type_id t = ttid) (tickets s)))"

definition recount :: "nat \<Rightarrow> db \<Rightarrow> db" where
  "recount i s =
     s\<lparr>ticket_types :=
         map (\<lambda>t. if tt_id t = i then t\<lparr>tt_tickets_sold := count_tickets i s\<rparr> else t)
           (ticket_types s)\<rparr>"

definition syncAll :: "db \<Rightarrow> db" where
  "syncAll s =
     (let s1 = s\<lparr>ticket_types :=
                   map (\<lambda>t. t\<lparr>tt_tickets_sold := count_tickets (tt_id t) s\<rparr>) (ticket_types s)\<rparr>
      in s1\<lparr>events :=
              map (\<lambda>e. e\<lparr>e_total_tickets := sum_total (e_id e) s1,
                          e_tickets_sold := sum_sold (e_id e) s1\<rparr>) (events s1)\<rparr>)"

section \<open>Properties of the store\<close>

text \<open>
  What the sequences and the foreign key of a ticket's transaction give in every store the
  handlers build: no row carries an id the sequence has still to hand out, and no ticket
  names a transaction of the future.
\<close>

definition ids_fresh :: "db \<Rightarrow> bool" where
  "ids_fresh s =
     (list_all (\<lambda>t. t_id t < next_ticket_id s \<and> t_transaction_id t < next_transaction_id s)
        (tickets s)
      \<and> list_all (\<lambda>x. tx_id x < next_transaction_id s) (transactions s))"

text \<open>The data model's invariant of the queue: at most one entry per user and event.\<close>

definition one_entry_per_user_event :: "db \<Rightarrow> bool" where
  "one_entry_per_user_event s = distinct (map (\<lambda>w. (w_user_id w, w_event_id w)) (waitlist s))"

text \<open>
  A ticket the sweep's query returns at time \<open>now\<close>: reserved, with a pending
  transaction and an expired entry of its user and event.
\<close>

definition ticket_expired :: "int \<Rightarrow> db \<Rightarrow> ticket \<Rightarrow> bool" where
  "ticket_expired now s t =
     (t_status t = Reserved
      \<and> (\<exists>x\<in>set (transactions s). tx_id x = t_transaction_id t \<and> tx_status x = Pending)
      \<and> (\<exists>w\<in>set (waitlist s). w_user_id w = t_user_id t \<and> w_event_id w = t_event_id t
             \<and> entry_expired now w))"



text \<open>The aggregate invariant: every event's two counters are the sums over its ticket types.\<close>

definition aggregates_ok :: "db \<Rightarrow> bool" where
  "aggregates_ok s =
     list_all (\<lambda>e. e_tickets_sold e = sum_sold (e_id e) s \<and> e_total_tickets e = sum_total (e_id e) s)
       (events s)"

section \<open>Example stores\<close>

text \<open>
  A sold-out event with one ticket type at 50.00, one active ticket bought by user 2, and
  users 3 and 4 waiting, in this order.
\<close>

definition store_sold_out :: db where
  "store_sold_out =
     \<lparr>users = [2, 3, 4, 9],
      events = [\<lparr>e_id = 1, e_organizer_id = 9, e_total_tickets = 1, e_tickets_sold = 1,
                 e_start_datetime = 100000, e_end_datetime = None\<rparr>],
      ticket_types = [\<lparr>tt_id = 1, tt_event_id = 1, tt_price = 50, tt_total_tickets = 1,
                       tt_tickets_sold = 1\<rparr>],
      tickets = [\<lparr>t_id = 1, t_transaction_id = 1, t_ticket_type_id = 1, t_event_id = 1,
                  t_user_id = 2, t_status = Active, t_issued_at = 10\<rparr>],
      transactions = [\<lparr>tx_id = 1, tx_user_id = 2, tx_total_price = 50, tx_status = Completed,
                       tx_payment_method = Card\<rparr>],
      waitlist = [\<lparr>w_id = 1, w_user_id = 3, w_event_id = 1, w_joined_at = 20,
                   w_offered_at = None, w_reservation_expires_at = None\<rparr>,
                  \<lparr>w_id = 2, w_user_id = 4, w_event_id = 1, w_joined_at = 30,
                   w_offered_at = None, w_reservation_expires_at = None\<rparr>],
      next_ticket_id = 2, next_transaction_id = 2, next_waitlist_id = 3\<rparr>"

text \<open>
  The same store after user 2 has returned the ticket at time 1000: the ticket is
  \<^verbatim>\<open>pending_return\<close>, user 3 holds an offer (transaction 2, ticket 2) that expires at 2800.
\<close>

definition store_offered :: db where
  "store_offered =
     \<lparr>users = [2, 3, 4, 9],
      events = [\<lparr>e_id = 1, e_organizer_id = 9, e_total_tickets = 1, e_tickets_sold = 1,
                 e_start_datetime = 100000, e_end_datetime = None\<rparr>],
      ticket_types = [\<lparr>tt_id = 1, tt_event_id = 1, tt_price = 50, tt_total_tickets = 1,
                       tt_tickets_sold = 1\<rparr>],
      tickets = [\<lparr>t_id = 1, t_transaction_id = 1, t_ticket_type_id = 1, t_event_id = 1,
                  t_user_id = 2, t_status = PendingReturn, t_issued_at = 10\<rparr>,
                 \<lparr>t_id = 2, t_transaction_id = 2, t_ticket_type_id = 1, t_event_id = 1,
                  t_user_id = 3, t_status = Reserved, t_issued_at = 1000\<rparr>],
      transactions = [\<lparr>tx_id = 1, tx_user_id = 2, tx_total_price = 50, tx_status = Completed,
                       tx_payment_method = Card\<rparr>,
                      \<lparr>tx_id = 2, tx_user_id = 3, tx_total_price = 50, tx_status = Pending,
                       tx_payment_method = Waitlist\<rparr>],
      waitlist = [\<lparr>w_id = 1, w_user_id = 3, w_event_id = 1, w_joined_at = 20,
                   w_offered_at = Some 1000, w_reservation_expires_at = Some 2800\<rparr>,
                  \<lparr>w_id = 2, w_user_id = 4, w_event_id = 1, w_joined_at = 30,
                   w_offered_at = None, w_reservation_expires_at = None\<rparr>],
      next_ticket_id = 3, next_transaction_id = 3, next_waitlist_id = 3\<rparr>"

text \<open>The store \<open>store_offered\<close> at a price of 33.33 instead of 50.00.\<close>

definition store_offered_3333 :: db where
  "store_offered_3333 =
     \<lparr>users = [2, 3, 4, 9],
      events = [\<lparr>e_id = 1, e_organizer_id = 9, e_total_tickets = 1, e_tickets_sold = 1,
                 e_start_datetime = 100000, e_end_datetime = None\<rparr>],
      ticket_types = [\<lparr>tt_id = 1, tt_event_id = 1, tt_price = 3333 / 100, tt_total_tickets = 1,
                       tt_tickets_sold = 1\<rparr>],
      tickets = [\<lparr>t_id = 1, t_transaction_id = 1, t_ticket_type_id = 1, t_event_id = 1,
                  t_user_id = 2, t_status = PendingReturn, t_issued_at = 10\<rparr>,
                 \<lparr>t_id = 2, t_transaction_id = 2, t_ticket_type_id = 1, t_event_id = 1,
                  t_user_id = 3, t_status = Reserved, t_issued_at = 1000\<rparr>],
      transactions = [\<lparr>tx_id = 1, tx_user_id = 2, tx_total_price = 3333 / 100,
                       tx_status = Completed, tx_payment_method = Card\<rparr>,
                      \<lparr>tx_id = 2, tx_user_id = 3, tx_total_price = 3333 / 100,
                       tx_status = Pending, tx_payment_method = Waitlist\<rparr>],
      waitlist = [\<lparr>w_id = 1, w_user_id = 3, w_event_id = 1, w_joined_at = 20,
                   w_offered_at = Some 1000, w_reservation_expires_at = Some 2800\<rparr>,
                  \<lparr>w_id = 2, w_user_id = 4, w_event_id = 1, w_joined_at = 30,
                   w_offered_at = None, w_reservation_expires_at = None\<rparr>],
      next_ticket_id = 3, next_transaction_id = 3, next_waitlist_id = 3\<rparr>"

text \<open>
  An event that is not sold out, after the organizer has refunded its only ticket: the
  ticket row stays in the table with status \<^verbatim>\<open>refunded\<close>, the counters are back at 0.
\<close>

definition store_refunded :: db where
  "store_refunded =
     \<lparr>users = [2, 9],
      events = [\<lparr>e_id = 1, e_organizer_id = 9, e_total_tickets = 2, e_tickets_sold = 0,
                 e_start_datetime = 100000, e_end_datetime = None\<rparr>],
      ticket_types = [\<lparr>tt_id = 1, tt_event_id = 1, tt_price = 50, tt_total_tickets = 2,
                       tt_tickets_sold = 0\<rparr>],
      tickets = [\<lparr>t_id = 1, t_transaction_id = 1, t_ticket_type_id = 1, t_event_id = 1,
                  t_user_id = 2, t_status = Refunded, t_issued_at = 10\<rparr>],
      transactions = [\<lparr>tx_id = 1, tx_user_id = 2, tx_total_price = 50, tx_status = TxRefunded,
                       tx_payment_method = Card\<rparr>],
      waitlist = [],
      next_ticket_id = 2, next_transaction_id = 2, next_waitlist_id = 1\<rparr>"

text \<open>
  An event that still has capacity (one of two tickets sold), with an entry left on its
  waitlist.
\<close>

definition store_open :: db where
  "store_open =
     \<lparr>users = [2, 3, 9],
      events = [\<lparr>e_id = 1, e_organizer_id = 9, e_total_tickets = 2, e_tickets_sold = 1,
                 e_start_datetime = 100000, e_end_datetime = None\<rparr>],
      ticket_types = [\<lparr>tt_id = 1, tt_event_id = 1, tt_price = 50, tt_total_tickets = 2,
                       tt_tickets_sold = 1\<rparr>],
      tickets = [\<lparr>t_id = 1, t_transaction_id = 1, t_ticket_type_id = 1, t_event_id = 1,
                  t_user_id = 2, t_status = Active, t_issued_at = 10\<rparr>],
      transactions = [\<lparr>tx_id = 1, tx_user_id = 2, tx_total_price = 50, tx_status = Completed,
                       tx_payment_method = Card\<rparr>],
      waitlist = [\<lparr>w_id = 1, w_user_id = 3, w_event_id = 1, w_joined_at = 20,
                   w_offered_at = None, w_reservation_expires_at = None\<rparr>],
      next_ticket_id = 2, next_transaction_id = 2, next_waitlist_id = 2\<rparr>"

text \<open>
  The count the specification describes for the recount: the ticket rows of the type in a
  state that counts toward sold, that is, every status but \<^verbatim>\<open>refunded\<close>.
\<close>

definition spec_non_terminal_count :: "nat \<Rightarrow> db \<Rightarrow> int" where
  "spec_non_terminal_count ttid s =
     int (length (filter (\<lambda>t. t_ticket_type_id t = ttid \<and> t_status t \<noteq> Refunded) (tickets s)))"

section \<open>The offer engine leaves the counters alone\<close>

lemmas statement_defs =
  set_transaction_status_def set_ticket_status_def delete_ticket_def delete_waitlist_id_def
  delete_waitlist_user_event_def insert_transaction_def insert_ticket_def stamp_offer_def

lemma earliest_None: "earliest k xs = None \<longleftrightarrow> xs = []"
  by (induction xs) (auto split: option.splits)

lemma earliest_in: "earliest k xs = Some x \<Longrightarrow> x \<in> set xs"
  by (induction xs arbitrary: x) (auto split: option.splits if_splits)

lemma next_unclaimed_None:
  "next_unclaimed ev s = None \<longleftrightarrow>
     (\<forall>w\<in>set (waitlist s). w_event_id w = ev \<longrightarrow> w_offered_at w \<noteq> None)"
  by (auto simp: next_unclaimed_def earliest_None filter_empty_conv)

lemma next_unclaimed_Some:
  "next_unclaimed ev s = Some c \<Longrightarrow>
     c \<in> set (waitlist s) \<and> w_event_id c = ev \<and> w_offered_at c = None"
  unfolding next_unclaimed_def by (drule earliest_in) simp

lemma assign_None:
  "next_unclaimed ev s = None \<Longrightarrow> assignTicketToWaitlist ev tt now s = (NotAssigned, s)"
  by (simp add: assignTicketToWaitlist_def)

lemma assign_Some:
  "next_unclaimed ev s = Some c \<Longrightarrow>
   assignTicketToWaitlist ev tt now s =
     (Assigned (w_user_id c) (next_transaction_id s),
      s\<lparr>waitlist :=
           map (\<lambda>w. if w_id w = w_id c
                     then w\<lparr>w_offered_at := Some now, w_reservation_expires_at := Some (now + 1800)\<rparr>
                     else w) (waitlist s),
        transactions := transactions s @
           [\<lparr>tx_id = next_transaction_id s, tx_user_id = w_user_id c,
             tx_total_price = price_of tt s, tx_status = Pending, tx_payment_method = Waitlist\<rparr>],
        next_transaction_id := Suc (next_transaction_id s),
        tickets := tickets s @
           [\<lparr>t_id = next_ticket_id s, t_transaction_id = next_transaction_id s,
             t_ticket_type_id = tt, t_event_id = ev, t_user_id = w_user_id c,
             t_status = Reserved, t_issued_at = now\<rparr>],
        next_ticket_id := Suc (next_ticket_id s)\<rparr>)"
  by (simp add: assignTicketToWaitlist_def statement_defs price_of_def Let_def)

lemma assign_events: "events (snd (assignTicketToWaitlist ev tt now s)) = events s"
  by (cases "next_unclaimed ev s") (simp_all add: assign_None assign_Some)

lemma assign_ticket_types: "ticket_types (snd (assignTicketToWaitlist ev tt now s)) = ticket_types s"
  by (cases "next_unclaimed ev s") (simp_all add: assign_None assign_Some)

lemma assign_users: "users (snd (assignTicketToWaitlist ev tt now s)) = users s"
  by (cases "next_unclaimed ev s") (simp_all add: assign_None assign_Some)

text \<open>
  Claim C8. \<^verbatim>\<open>assignTicketToWaitlist\<close> never changes a ticket type or an event, so no sold
  counter moves. When every entry of the event already has an offer (or there is none) it
  answers \<^verbatim>\<open>assigned: false\<close> and the store is the one it was given. Otherwise it adds exactly
  one pending transaction of method \<^verbatim>\<open>waitlist\<close>, one reserved ticket, and the two timestamps
  on the claimed entry.
\<close>

theorem assign_leaves_counters:
  "ticket_types (snd (assignTicketToWaitlist ev tt now s)) = ticket_types s
   \<and> events (snd (assignTicketToWaitlist ev tt now s)) = events s
   \<and> ((\<forall>w\<in>set (waitlist s). w_event_id w = ev \<longrightarrow> w_offered_at w \<noteq> None)
        \<longrightarrow> assignTicketToWaitlist ev tt now s = (NotAssigned, s))
   \<and> ((\<exists>w\<in>set (waitlist s). w_event_id w = ev \<and> w_offered_at w = None)
        \<longrightarrow> (\<exists>c\<in>set (waitlist s). w_event_id c = ev \<and> w_offered_at c = None
              \<and> fst (assignTicketToWaitlist ev tt now s)
                  = Assigned (w_user_id c) (next_transaction_id s)
              \<and> transactions (snd (assignTicketToWaitlist ev tt now s))
                  = transactions s @
                      [\<lparr>tx_id = next_transaction_id s, tx_user_id = w_user_id c,
                        tx_total_price = price_of tt s, tx_status = Pending,
                        tx_payment_method = Waitlist\<rparr>]
              \<and> tickets (snd (assignTicketToWaitlist ev tt now s))
                  = tickets s @
                      [\<lparr>t_id = next_ticket_id s, t_transaction_id = next_transaction_id s,
                        t_ticket_type_id = tt, t_event_id = ev, t_user_id = w_user_id c,
                        t_status = Reserved, t_issued_at = now\<rparr>]
              \<and> waitlist (snd (assignTicketToWaitlist ev tt now s))
                  = map (\<lambda>w. if w_id w = w_id c
                              then w\<lparr>w_offered_at := Some now,
                                     w_reservation_expires_at := Some (now + 1800)\<rparr>
                              else w) (waitlist s)))"
proof (cases "next_unclaimed ev s")
  case None
  then show ?thesis
    using next_unclaimed_None [of ev s] by (auto simp: assign_None)
next
  case (Some c)
  from next_unclaimed_Some [OF Some] have c: "c \<in> set (waitlist s)" "w_event_id c = ev" "w_offered_at c = None"
    by simp_all
  have not_none: "\<not> (\<forall>w\<in>set (waitlist s). w_event_id w = ev \<longrightarrow> w_offered_at w \<noteq> None)"
    using c by blast
  show ?thesis
    unfolding assign_Some [OF Some] using c not_none
    by (intro conjI impI) (simp_all, (rule bexI [of _ c], simp_all)?)
qed


lemma store_offered_reached: "snd (refundTicket 1 1000 store_sold_out) = store_offered"
  by (simp add: store_offered_def store_sold_out_def refundTicket_def ticket_with_event_def
      assignTicketToWaitlist_def next_unclaimed_def price_of_def statement_defs Let_def)

theorem assign_leaves_counters_witness:
  "assignTicketToWaitlist 2 1 1000 store_sold_out = (NotAssigned, store_sold_out)
   \<and> ticket_types (snd (assignTicketToWaitlist 1 1 1000 store_sold_out))
       = ticket_types store_sold_out
   \<and> events (snd (assignTicketToWaitlist 1 1 1000 store_sold_out)) = events store_sold_out
   \<and> fst (assignTicketToWaitlist 1 1 1000 store_sold_out) = Assigned 3 2"
  using assign_leaves_counters [where s = store_sold_out and ev = 2 and tt = 1 and now = 1000]
    assign_leaves_counters [where s = store_sold_out and ev = 1 and tt = 1 and now = 1000]
  by (simp add: store_sold_out_def assignTicketToWaitlist_def next_unclaimed_def price_of_def
      statement_defs Let_def)

section \<open>The recount\<close>

lemma length_filter_split:
  "length (filter P xs) =
     length (filter (\<lambda>x. P x \<and> Q x) xs) + length (filter (\<lambda>x. P x \<and> \<not> Q x) xs)"
  by (induction xs) auto

text \<open>
  What the recount stores for the ticket type is the number of all ticket rows of the type,
  whatever their status: \<^verbatim>\<open>SELECT COUNT(*) FROM tickets WHERE ticket_type_id = $1\<close> has no
  condition on the status. That is the rows that count toward sold plus the refunded ones.
  No other ticket type changes, and neither do the tickets.
\<close>

lemma recount_stores_row_count:
  "(\<forall>tt\<in>set (ticket_types (recount i s)).
      tt_id tt = i \<longrightarrow>
        tt_tickets_sold tt = int (length (filter (\<lambda>t. t_ticket_type_id t = i) (tickets s)))
        \<and> tt_tickets_sold tt =
          spec_non_terminal_count i s
          + int (length (filter (\<lambda>t. t_ticket_type_id t = i \<and> t_status t = Refunded) (tickets s))))
   \<and> (\<forall>tt\<in>set (ticket_types s). tt_id tt \<noteq> i \<longrightarrow> tt \<in> set (ticket_types (recount i s)))
   \<and> map tt_id (ticket_types (recount i s)) = map tt_id (ticket_types s)
   \<and> tickets (recount i s) = tickets s"
proof -
  have cnt: "count_tickets i s =
          spec_non_terminal_count i s
          + int (length (filter (\<lambda>t. t_ticket_type_id t = i \<and> t_status t = Refunded) (tickets s)))"
    unfolding count_tickets_def spec_non_terminal_count_def
    using length_filter_split [of "\<lambda>t. t_ticket_type_id t = i" "tickets s"
        "\<lambda>t. t_status t \<noteq> Refunded"]
    by simp
  have sold: "tt_tickets_sold tt = count_tickets i s"
    if "tt \<in> set (ticket_types (recount i s))" and "tt_id tt = i" for tt
  proof -
    from that(1) obtain x where x: "x \<in> set (ticket_types s)"
      and tt: "tt = (if tt_id x = i then x\<lparr>tt_tickets_sold := count_tickets i s\<rparr> else x)"
      by (auto simp: recount_def)
    show ?thesis
    proof (cases "tt_id x = i")
      case True
      with tt show ?thesis by simp
    next
      case False
      with tt that(2) show ?thesis by simp
    qed
  qed
  have others: "tt \<in> set (ticket_types (recount i s))"
    if "tt \<in> set (ticket_types s)" and "tt_id tt \<noteq> i" for tt
    using that by (force simp: recount_def)
  have ids: "map tt_id (ticket_types (recount i s)) = map tt_id (ticket_types s)"
    by (simp add: recount_def comp_def cong: map_cong)
  have tickets: "tickets (recount i s) = tickets s"
    by (simp add: recount_def)
  from sold cnt others ids tickets show ?thesis
    by (simp add: count_tickets_def)
qed

text \<open>
  Claim C3. The recount is there to repair drift: it is to store the number of the type's
  ticket rows that count toward sold, refunded rows excluded. The other handlers keep
  refunded rows out of the sold count: the organizer's refund keeps the row, as \<^verbatim>\<open>refunded\<close>,
  and takes one off \<^verbatim>\<open>tickets_sold\<close>; the accept turns the returned ticket into a refunded
  row and leaves the counter alone, one ticket replacing the other. The recount counts
  these rows back in. After the organizer has refunded the only sold ticket of
  \<open>store_open\<close>, the type's sold count is 0 and no row counts toward sold; the recount stores
  1. After the returned ticket of the sold-out store has changed hands, one of the two rows
  counts toward sold and the sold count is 1 of a total of 1; the recount stores 2 of a
  total of 1.
\<close>

theorem recount_counts_refunded_rows:
  "map tt_tickets_sold (ticket_types (snd (organizerRefund 1 9 500 store_open))) = [0]
   \<and> spec_non_terminal_count 1 (snd (organizerRefund 1 9 500 store_open)) = 0
   \<and> map tt_tickets_sold (ticket_types (recount 1 (snd (organizerRefund 1 9 500 store_open)))) = [1]
   \<and> map (\<lambda>tt. (tt_tickets_sold tt, tt_total_tickets tt))
        (ticket_types (snd (acceptTicket 2 1500 store_offered))) = [(1, 1)]
   \<and> map (\<lambda>t. (t_id t, t_status t)) (tickets (snd (acceptTicket 2 1500 store_offered)))
        = [(1, Refunded), (2, Active)]
   \<and> spec_non_terminal_count 1 (snd (acceptTicket 2 1500 store_offered)) = 1
   \<and> map (\<lambda>tt. (tt_tickets_sold tt, tt_total_tickets tt))
        (ticket_types (recount 1 (snd (acceptTicket 2 1500 store_offered)))) = [(2, 1)]"
proof -
  define sa where "sa = snd (organizerRefund 1 9 500 store_open)"
  define sb where "sb = snd (acceptTicket 2 1500 store_offered)"
  have a: "ticket_types sa
             = [\<lparr>tt_id = 1, tt_event_id = 1, tt_price = 50, tt_total_tickets = 2,
                  tt_tickets_sold = 0\<rparr>]"
    "tickets sa
             = [\<lparr>t_id = 1, t_transaction_id = 1, t_ticket_type_id = 1, t_event_id = 1,
                  t_user_id = 2, t_status = Refunded, t_issued_at = 10\<rparr>]"
    by (simp_all add: sa_def organizerRefund_def ticket_with_event_def decrement_event_sold_def
        decrement_type_sold_def statement_defs store_open_def Let_def)
  have b: "ticket_types sb
             = [\<lparr>tt_id = 1, tt_event_id = 1, tt_price = 50, tt_total_tickets = 1,
                  tt_tickets_sold = 1\<rparr>]"
    "tickets sb
             = [\<lparr>t_id = 1, t_transaction_id = 1, t_ticket_type_id = 1, t_event_id = 1,
                  t_user_id = 2, t_status = Refunded, t_issued_at = 10\<rparr>,
                 \<lparr>t_id = 2, t_transaction_id = 2, t_ticket_type_id = 1, t_event_id = 1,
                  t_user_id = 3, t_status = Active, t_issued_at = 1000\<rparr>]"
    by (simp_all add: sb_def store_offered_def acceptTicket_def offer_expired_def
        pending_return_of_type_def statement_defs Let_def)
  show ?thesis
    unfolding sa_def [symmetric] sb_def [symmetric]
    by (simp add: a b recount_def count_tickets_def spec_non_terminal_count_def)
qed

section \<open>The aggregate invariant\<close>

text \<open>
  What the handlers around the recount do for the invariant: \<^verbatim>\<open>sync-all\<close> establishes it for
  every event, a purchase establishes it for the event of the request, deleting a ticket
  keeps it. The recount never writes an event.
\<close>

lemma recount_events: "events (recount i s) = events s"
  by (simp add: recount_def)

lemma sum_sold_events_update: "sum_sold ev (s\<lparr>events := es\<rparr>) = sum_sold ev s"
  by (simp add: sum_sold_def)

lemma sum_total_events_update: "sum_total ev (s\<lparr>events := es\<rparr>) = sum_total ev s"
  by (simp add: sum_total_def)

lemma syncAll_aggregates_ok: "aggregates_ok (syncAll s)"
  by (simp add: aggregates_ok_def syncAll_def Let_def list_all_iff sum_sold_events_update
      sum_total_events_update)

lemma deleteTicket_keeps_aggregates:
  "aggregates_ok s \<Longrightarrow> aggregates_ok (snd (deleteTicket i s))"
  by (auto simp: aggregates_ok_def deleteTicket_def delete_ticket_def sum_sold_def sum_total_def
      split: list.splits)

lemma insert_tickets_fields:
  "ticket_types (insert_tickets n txid ttid ev u now s) = ticket_types s"
  "events (insert_tickets n txid ttid ev u now s) = events s"
  by (induction n arbitrary: s) (simp_all add: insert_ticket_def)

lemma sync_event_ok:
  assumes "e \<in> set (events (sync_event ev s))" and "e_id e = ev"
  shows "e_tickets_sold e = sum_sold ev (sync_event ev s)
         \<and> e_total_tickets e = sum_total ev (sync_event ev s)"
proof -
  from assms(1) obtain x where x: "x \<in> set (events s)"
    and e: "e = (if e_id x = ev
                 then x\<lparr>e_tickets_sold := sum_sold ev s, e_total_tickets := sum_total ev s\<rparr>
                 else x)"
    by (auto simp: sync_event_def)
  have sums: "sum_sold ev (sync_event ev s) = sum_sold ev s"
    "sum_total ev (sync_event ev s) = sum_total ev s"
    by (simp_all add: sync_event_def sum_sold_events_update sum_total_events_update)
  show ?thesis
  proof (cases "e_id x = ev")
    case True
    with e sums show ?thesis by simp
  next
    case False
    with e assms(2) show ?thesis by simp
  qed
qed

lemma purchase_ends_with_sync:
  assumes "purchaseTickets user_id event_id ticket_type_id quantity pm now s = (Inr r, s')"
  shows "\<exists>s3. s' = sync_event event_id s3"
  using assms
  by (auto simp: purchaseTickets_def Let_def split: if_splits option.splits prod.splits)

lemma purchase_syncs_event:
  assumes "purchaseTickets user_id event_id ticket_type_id quantity pm now s = (Inr r, s')"
  shows "\<forall>e\<in>set (events s').
           e_id e = event_id \<longrightarrow>
             e_tickets_sold e = sum_sold event_id s' \<and> e_total_tickets e = sum_total event_id s'"
  using purchase_ends_with_sync [OF assms] sync_event_ok by blast

text \<open>
  Claim C1. The event's counters are meant to be the sums over its ticket types after every
  write. Deleting a ticket writes no counter, so the invariant stays; the recount then
  rewrites the ticket type's sold count and leaves the event as it was, and the invariant is
  gone. The sibling \<^verbatim>\<open>sync-all\<close> recomputes the events after the same recount and restores it.
\<close>

theorem recount_breaks_aggregates:
  "aggregates_ok store_sold_out
   \<and> aggregates_ok (snd (deleteTicket 1 store_sold_out))
   \<and> \<not> aggregates_ok (recount 1 (snd (deleteTicket 1 store_sold_out)))
   \<and> aggregates_ok (syncAll (snd (deleteTicket 1 store_sold_out)))"
  by (simp add: aggregates_ok_def sum_sold_def sum_total_def recount_def count_tickets_def
      syncAll_def deleteTicket_def delete_ticket_def store_sold_out_def Let_def)

section \<open>Accepting after the expiry\<close>

text \<open>
  An accept that answers \<open>ReservationExpired\<close> deletes no waitlist entry, whatever
  the store; an accept whose entry has not run out does not take the expired branch
  (\<^verbatim>\<open>expiresAt < now\<close> is strict, so the instant of the expiry itself still counts as live).
\<close>

lemma assign_waitlist_ids:
  "map w_id (waitlist (snd (assignTicketToWaitlist ev tt now s))) = map w_id (waitlist s)"
  by (cases "next_unclaimed ev s") (simp_all add: assign_None assign_Some comp_def cong: map_cong)

lemma accept_expired_deletes_no_entry:
  assumes "fst (acceptTicket txid now s) = Inl ReservationExpired"
  shows "map w_id (waitlist (snd (acceptTicket txid now s))) = map w_id (waitlist s)"
  using assms
  by (auto simp: acceptTicket_def Let_def assign_waitlist_ids delete_ticket_def
      set_transaction_status_def split: list.splits if_splits option.splits)

lemma accept_before_expiry:
  assumes "filter (\<lambda>w. w_user_id w = u \<and> w_event_id w = ev) (waitlist s) = w # ws"
    and "w_reservation_expires_at w = Some x" and "now \<le> x"
  shows "\<not> offer_expired u ev now s"
  using assms by (simp add: offer_expired_def split: option.splits)

text \<open>
  Claim C2. In \<open>store_offered\<close> the offer of user 3 expires at 2800. An accept at 2801
  answers \<open>ReservationExpired\<close>, expires the transaction, deletes the reserved ticket and
  offers the slot to user 4, but the stale entry of user 3 stays in the waitlist; the sweep
  at the same time deletes it.
\<close>

theorem accept_expired_keeps_entry:
  "fst (acceptTicket 2 2801 store_offered) = Inl ReservationExpired
   \<and> map tx_status (transactions (snd (acceptTicket 2 2801 store_offered)))
       = [Completed, Expired, Pending]
   \<and> map t_id (tickets (snd (acceptTicket 2 2801 store_offered))) = [1, 3]
   \<and> map w_id (waitlist (snd (acceptTicket 2 2801 store_offered))) = [1, 2]
   \<and> map w_offered_at (waitlist (snd (acceptTicket 2 2801 store_offered)))
       = [Some 1000, Some 2801]
   \<and> map w_id (waitlist (snd (cleanupExpiredReservations 2801 store_offered))) = [2]"
  by (simp add: store_offered_def acceptTicket_def offer_expired_def
      cleanupExpiredReservations_def expired_rows_def entry_expired_def cleanup_row_def
      expire_row_def
      assignTicketToWaitlist_def next_unclaimed_def price_of_def statement_defs Let_def)

section \<open>The arithmetic of JavaScript numbers\<close>

text \<open>Evaluation of the rounding on numerals.\<close>

lemma floor_rat_numeral: "\<lfloor>numeral a / numeral b :: rat\<rfloor> = numeral a div numeral b"
  by (metis floor_divide_of_int_eq of_int_numeral)

lemmas double_eval = to_double_def normalise_down.simps normalise_up.simps round_half_even_def
  pow2_def floor_rat_numeral Let_def

text \<open>The normalisation keeps the value and brings a normal number's significand into
  \<open>[2 ^ 52, 2 ^ 53)\<close>.\<close>

lemma pow2_powi: "pow2 e = 2 powi e"
  by (simp add: pow2_def power_int_def inverse_eq_divide power_one_over)

lemma pow2_pos: "0 < pow2 e"
  by (simp add: pow2_powi)

lemma pow2_Suc: "pow2 (e + 1) = 2 * pow2 e"
  by (simp add: pow2_powi power_int_add)

lemma pow2_pred: "pow2 (e - 1) = pow2 e / 2"
  using pow2_Suc [of "e - 1"] by simp

lemma pow2_mono: "a \<le> b \<Longrightarrow> pow2 a \<le> pow2 b"
  by (simp add: pow2_powi power_int_increasing)

lemma normalise_down_spec:
  "0 < y \<Longrightarrow> normalise_down y e = (y', e') \<Longrightarrow>
     y' * pow2 e' = y * pow2 e \<and> 0 < y' \<and> y' < 2 ^ 53
     \<and> (2 ^ 53 \<le> y \<longrightarrow> 2 ^ 52 \<le> y') \<and> (y < 2 ^ 53 \<longrightarrow> y' = y \<and> e' = e)"
proof (induction y e rule: normalise_down.induct)
  case (1 y e)
  show ?case
  proof (cases "2 ^ 53 \<le> y")
    case False
    with "1.prems" show ?thesis
      by (simp add: normalise_down.simps)
  next
    case True
    with "1.prems" have rec: "normalise_down (y / 2) (e + 1) = (y', e')"
      by (simp add: normalise_down.simps)
    from "1.prems" have "0 < y / 2" by simp
    from "1.IH" [OF True this rec]
    have ih: "y' * pow2 e' = y / 2 * pow2 (e + 1)" "0 < y'" "y' < 2 ^ 53"
      "2 ^ 53 \<le> y / 2 \<longrightarrow> 2 ^ 52 \<le> y'" "y / 2 < 2 ^ 53 \<longrightarrow> y' = y / 2 \<and> e' = e + 1"
      by simp_all
    from True have "2 ^ 52 \<le> y / 2" by simp
    with ih(4,5) have "2 ^ 52 \<le> y'"
      by (cases "2 ^ 53 \<le> y / 2") simp_all
    with ih True show ?thesis
      by (simp add: pow2_Suc)
  qed
qed

lemma normalise_up_spec:
  "0 < y \<Longrightarrow> y < 2 ^ 53 \<Longrightarrow> pow2 (- 1022) \<le> y * pow2 e \<Longrightarrow> normalise_up y e = (y', e') \<Longrightarrow>
     y' * pow2 e' = y * pow2 e \<and> 2 ^ 52 \<le> y' \<and> y' < 2 ^ 53"
proof (induction y e rule: normalise_up.induct)
  case (1 y e)
  show ?case
  proof (cases "y < 2 ^ 52")
    case False
    with "1.prems" show ?thesis
      by (simp add: normalise_up.simps)
  next
    case small: True
    have e: "- 1074 < e"
    proof (rule ccontr)
      assume "\<not> - 1074 < e"
      then have "pow2 e \<le> pow2 (- 1074)" by (intro pow2_mono) simp
      with small "1.prems"(1) have "y * pow2 e < 2 ^ 52 * pow2 (- 1074)"
        by (intro mult_less_le_imp_less) (simp_all add: pow2_pos)
      also have "2 ^ 52 * pow2 (- 1074) = pow2 (- 1022)"
      proof -
        have "(2::rat) ^ 52 = pow2 52" by (simp add: pow2_def)
        moreover have "pow2 52 * pow2 (- 1074) = pow2 (52 + (- 1074))"
          unfolding pow2_powi by (rule power_int_add [symmetric]) simp
        ultimately show ?thesis by simp
      qed
      finally show False using "1.prems"(3) by simp
    qed
    with small "1.prems" have rec: "normalise_up (2 * y) (e - 1) = (y', e')"
      by (simp add: normalise_up.simps)
    have cond: "0 < y \<and> y < 2 ^ 52 \<and> - 1074 < e"
      using small e "1.prems"(1) by simp
    from small have lt: "2 * y < 2 ^ 53" by simp
    from "1.prems"(1) have pos: "0 < 2 * y" by simp
    have same: "2 * y * pow2 (e - 1) = y * pow2 e"
      by (simp add: pow2_pred)
    from "1.IH" [OF cond pos lt _ rec] "1.prems"(3) same show ?thesis
      by simp
  qed
qed

text \<open>Rounding a normal number moves it by at most half a unit in the last place.\<close>

lemma round_half_even_error: "\<bar>of_int (round_half_even q) - q\<bar> \<le> 1 / 2"
proof -
  have "of_int \<lfloor>q\<rfloor> \<le> q" "q < of_int \<lfloor>q\<rfloor> + 1"
    by linarith+
  then show ?thesis
    by (auto simp: round_half_even_def Let_def)
qed

lemma to_double_error:
  assumes normal: "pow2 (- 1022) \<le> \<bar>x\<bar>"
  shows "\<bar>to_double x - x\<bar> \<le> \<bar>x\<bar> / 2 ^ 53"
proof -
  from normal have x0: "x \<noteq> 0" "0 < \<bar>x\<bar>"
    using pow2_pos [of "- 1022"] by auto
  obtain y1 e1 where d: "normalise_down \<bar>x\<bar> 0 = (y1, e1)"
    by (cases "normalise_down \<bar>x\<bar> 0")
  obtain y e where u: "normalise_up y1 e1 = (y, e)"
    by (cases "normalise_up y1 e1")
  from normalise_down_spec [OF x0(2) d]
  have d': "y1 * pow2 e1 = \<bar>x\<bar>" "0 < y1" "y1 < 2 ^ 53"
    by (simp_all add: pow2_def)
  from normalise_up_spec [OF d'(2,3) _ u] normal d'(1)
  have u': "y * pow2 e = \<bar>x\<bar>" "2 ^ 52 \<le> y"
    by simp_all
  have val: "to_double x = sgn x * of_int (round_half_even y) * pow2 e"
    using x0 by (simp add: to_double_def d u)
  have eq: "sgn x * (y * pow2 e) = x"
    by (simp only: u'(1) mult_sgn_abs)
  have "to_double x - x = sgn x * of_int (round_half_even y) * pow2 e - sgn x * (y * pow2 e)"
    by (simp only: val eq)
  also have "\<dots> = sgn x * ((of_int (round_half_even y) - y) * pow2 e)"
    by (simp only: algebra_simps)
  finally have "to_double x - x = sgn x * ((of_int (round_half_even y) - y) * pow2 e)" .
  then have "\<bar>to_double x - x\<bar> = \<bar>of_int (round_half_even y) - y\<bar> * pow2 e"
    using x0 pow2_pos [of e] by (simp add: abs_mult abs_sgn_eq)
  also have "\<dots> \<le> 1 / 2 * pow2 e"
    using round_half_even_error [of y] pow2_pos [of e] by (intro mult_right_mono) simp_all
  also have "\<dots> \<le> y / 2 ^ 53 * pow2 e"
    using u'(2) pow2_pos [of e] by (intro mult_right_mono) simp_all
  also have "\<dots> = \<bar>x\<bar> / 2 ^ 53"
    using u'(1) by simp
  finally show ?thesis .
qed


text \<open>\<^verbatim>\<open>toFixed(2)\<close> moves a number by at most half a cent.\<close>

lemma abs_le_bounds: "\<bar>a\<bar> \<le> b \<Longrightarrow> - b \<le> a \<and> a \<le> (b::rat)"
  by linarith

lemma to_fixed2_error: "\<bar>to_fixed2 x - x\<bar> \<le> 1 / 200"
proof -
  define z where "z = \<bar>x\<bar> * 100 + 1 / 2"
  have fl: "of_int \<lfloor>z\<rfloor> \<le> z" "z < of_int \<lfloor>z\<rfloor> + 1"
    by linarith+
  have "x = sgn x * \<bar>x\<bar>"
    by (simp only: mult_sgn_abs)
  then have "to_fixed2 x - x = sgn x * (of_int \<lfloor>z\<rfloor> / 100) - sgn x * \<bar>x\<bar>"
    by (simp add: to_fixed2_def z_def)
  also have "\<dots> = sgn x * (of_int \<lfloor>z\<rfloor> / 100 - \<bar>x\<bar>)"
    by (simp only: right_diff_distrib)
  finally have "\<bar>to_fixed2 x - x\<bar> \<le> \<bar>of_int \<lfloor>z\<rfloor> / 100 - \<bar>x\<bar>\<bar>"
    by (cases "x = 0") (simp_all add: abs_mult abs_sgn_eq)
  also have "\<dots> \<le> 1 / 200"
    using fl unfolding z_def by linarith
  finally show ?thesis .
qed

text \<open>
  The literal \<^verbatim>\<open>0.02\<close> is the number \<open>5764607523034235 / 2 ^ 58\<close>, a little above one fiftieth. From a
  price \<open>p\<close> of a cent or more the handler's three roundings give a refund within \<open>p / 2 ^ 51\<close>
  of 98% and a fee within \<open>p / 2 ^ 56\<close> of 2%.
\<close>

lemma two_percent: "to_double (2 / 100) = 5764607523034235 / 2 ^ 58"
  by (simp add: double_eval)

lemma pow2_tiny: "pow2 (- 1022) \<le> 1 / 1000000"
  by (simp add: pow2_def)

lemma abs_le_from_bounds: "- b \<le> a \<Longrightarrow> a \<le> b \<Longrightarrow> \<bar>a\<bar> \<le> (b::rat)"
  by linarith

lemma refund_arithmetic_error:
  assumes p: "1 / 100 \<le> p"
  defines "P \<equiv> to_double p"
  defines "F \<equiv> to_double (P * to_double (2 / 100))"
  defines "R \<equiv> to_double (P - F)"
  shows "\<bar>R - 98 / 100 * p\<bar> \<le> p / 2 ^ 51 \<and> \<bar>F - 2 / 100 * p\<bar> \<le> p / 2 ^ 56"
proof -
  define D where "D = P - F"
  from p have p0: "0 \<le> p" by simp
  from p pow2_tiny have "pow2 (- 1022) \<le> \<bar>p\<bar>" by simp
  from to_double_error [OF this] p have "\<bar>P - p\<bar> \<le> p / 2 ^ 53"
    by (simp add: P_def)
  from abs_le_bounds [OF this]
  have eP: "- (p / 9007199254740992) \<le> P - p" "P - p \<le> p / 9007199254740992"
    by simp_all
  with p have P: "1 / 200 \<le> P"
    by linarith
  have Fc: "F = to_double (P * (5764607523034235 / 2 ^ 58))"
    by (simp only: F_def two_percent)
  from P have "1 / 1000000 \<le> P * (5764607523034235 / 288230376151711744)" "0 \<le> P"
    by linarith+
  with pow2_tiny have "pow2 (- 1022) \<le> \<bar>P * (5764607523034235 / 2 ^ 58)\<bar>"
    by (simp add: abs_mult)
  from to_double_error [OF this] P
  have "\<bar>F - P * (5764607523034235 / 2 ^ 58)\<bar> \<le> P * (5764607523034235 / 2 ^ 58) / 2 ^ 53"
    by (simp add: Fc abs_mult)
  from abs_le_bounds [OF this]
  have eF: "- (P * (5764607523034235 / 288230376151711744) / 9007199254740992)
              \<le> F - P * (5764607523034235 / 288230376151711744)"
    "F - P * (5764607523034235 / 288230376151711744)
       \<le> P * (5764607523034235 / 288230376151711744) / 9007199254740992"
    by simp_all
  from eF(1) eP(1) p0 have F1: "- (p / 72057594037927936) \<le> F - 2 / 100 * p"
    by linarith
  from eF(2) eP(2) p0 have F2: "F - 2 / 100 * p \<le> p / 72057594037927936"
    by linarith
  from F1 eP(2) p0 have D1: "D \<le> 98 / 100 * p + p / 4503599627370496"
    unfolding D_def by linarith
  from F2 eP(1) p0 have D2: "98 / 100 * p - p / 4503599627370496 \<le> D"
    unfolding D_def by linarith
  from D2 p have "1 / 1000000 \<le> D"
    by linarith
  with pow2_tiny have "pow2 (- 1022) \<le> \<bar>D\<bar>"
    by simp
  from to_double_error [OF this] D2 p have "\<bar>R - D\<bar> \<le> D / 2 ^ 53"
    by (simp add: R_def D_def)
  from abs_le_bounds [OF this]
  have eR: "- (D / 9007199254740992) \<le> R - D" "R - D \<le> D / 9007199254740992"
    by simp_all
  from D1 eR(2) p0 have R1: "R - 98 / 100 * p \<le> p / 2251799813685248"
    by linarith
  from D2 eR(1) p0 have R2: "- (p / 2251799813685248) \<le> R - 98 / 100 * p"
    by linarith
  have pows: "(2::rat) ^ 51 = 2251799813685248" "(2::rat) ^ 56 = 72057594037927936"
    by simp_all
  show ?thesis
    unfolding pows by (intro conjI abs_le_from_bounds R1 R2 F1 F2)
qed


section \<open>The refund of the displaced owner\<close>

lemma filter_Cons_find: "filter P xs = x # ys \<Longrightarrow> find P xs = Some x"
  by (induction xs) (auto split: if_splits)

lemma find_map_status:
  "find (\<lambda>x. tx_id x = i) (map (\<lambda>x. if tx_id x = j then x\<lparr>tx_status := st\<rparr> else x) xs)
     = map_option (\<lambda>x. if tx_id x = j then x\<lparr>tx_status := st\<rparr> else x) (find (\<lambda>x. tx_id x = i) xs)"
  by (induction xs) auto

text \<open>The handler's arithmetic at 33.33 and at 50.00.\<close>

lemma double_3333:
  "to_double (3333 / 100) = 2345390243441541 / 2 ^ 46"
  "to_double (2345390243441541 / 2 ^ 46 * (5764607523034235 / 2 ^ 58)) = 6004199023210345 / 2 ^ 53"
  "to_double (2345390243441541 / 2 ^ 46 - 6004199023210345 / 2 ^ 53) = 1149241219286355 / 2 ^ 45"
  "to_fixed2 (6004199023210345 / 2 ^ 53) = 67 / 100"
  by (simp_all add: double_eval to_fixed2_def)

lemma double_50:
  "to_double 50 = 50"
  "to_double (50 * (5764607523034235 / 2 ^ 58)) = 1"
  "to_double 49 = 49"
  "to_fixed2 1 = 1"
  by (simp_all add: double_eval to_fixed2_def)

text \<open>
  Claim C4, as stated, fails. At a price of 33.33 the accept answers a refund of
  \<open>1149241219286355 / 2 ^ 45\<close>, the number \<^verbatim>\<open>32.663399999999996\<close>, and inserts its negative as the
  amount of the compensating transaction: this is not 98% of 33.33, which is 32.6634. The
  fee it answers is \<^verbatim>\<open>'0.67'\<close>, not 2% of 33.33, which is 0.6666.
\<close>

theorem accept_refund_counterexample:
  "fst (acceptTicket 2 1500 store_offered_3333)
     = Inr \<lparr>accepted_ticket =
               \<lparr>t_id = 2, t_transaction_id = 2, t_ticket_type_id = 1, t_event_id = 1,
                 t_user_id = 3, t_status = Reserved, t_issued_at = 1000\<rparr>,
             refunded_ticket_id = Some 1, refund_amount = 1149241219286355 / 2 ^ 45,
             platform_fee = 67 / 100\<rparr>
   \<and> last (transactions (snd (acceptTicket 2 1500 store_offered_3333)))
     = \<lparr>tx_id = 3, tx_user_id = 2, tx_total_price = - (1149241219286355 / 2 ^ 45),
         tx_status = TxRefunded, tx_payment_method = WaitlistReturn\<rparr>
   \<and> (1149241219286355 / 2 ^ 45 :: rat) \<noteq> 98 / 100 * (3333 / 100)
   \<and> (67 / 100 :: rat) \<noteq> 2 / 100 * (3333 / 100)"
proof -
  have acc: "acceptTicket 2 1500 store_offered_3333 =
     (Inr \<lparr>accepted_ticket =
               \<lparr>t_id = 2, t_transaction_id = 2, t_ticket_type_id = 1, t_event_id = 1,
                 t_user_id = 3, t_status = Reserved, t_issued_at = 1000\<rparr>,
             refunded_ticket_id = Some 1,
             refund_amount = to_double (to_double (3333 / 100)
                               - to_double (to_double (3333 / 100) * to_double (2 / 100))),
             platform_fee = to_fixed2 (to_double (to_double (3333 / 100) * to_double (2 / 100)))\<rparr>,
      store_offered_3333
        \<lparr>tickets := [\<lparr>t_id = 1, t_transaction_id = 1, t_ticket_type_id = 1, t_event_id = 1,
                       t_user_id = 2, t_status = Refunded, t_issued_at = 10\<rparr>,
                      \<lparr>t_id = 2, t_transaction_id = 2, t_ticket_type_id = 1, t_event_id = 1,
                       t_user_id = 3, t_status = Active, t_issued_at = 1000\<rparr>],
         transactions := [\<lparr>tx_id = 1, tx_user_id = 2, tx_total_price = 3333 / 100,
                            tx_status = Completed, tx_payment_method = Card\<rparr>,
                          \<lparr>tx_id = 2, tx_user_id = 3, tx_total_price = 3333 / 100,
                            tx_status = Completed, tx_payment_method = Waitlist\<rparr>,
                          \<lparr>tx_id = 3, tx_user_id = 2,
                            tx_total_price = - to_double (to_double (3333 / 100)
                               - to_double (to_double (3333 / 100) * to_double (2 / 100))),
                            tx_status = TxRefunded, tx_payment_method = WaitlistReturn\<rparr>],
         waitlist := [\<lparr>w_id = 2, w_user_id = 4, w_event_id = 1, w_joined_at = 30,
                        w_offered_at = None, w_reservation_expires_at = None\<rparr>],
         next_transaction_id := 4\<rparr>)"
    by (simp add: store_offered_3333_def acceptTicket_def offer_expired_def
        pending_return_of_type_def statement_defs Let_def)
  have amounts:
    "to_double (to_double (3333 / 100) - to_double (to_double (3333 / 100) * to_double (2 / 100)))
       = 1149241219286355 / 2 ^ 45"
    "to_fixed2 (to_double (to_double (3333 / 100) * to_double (2 / 100))) = 67 / 100"
    by (simp_all only: double_3333 two_percent)
  show ?thesis
    unfolding acc amounts by simp
qed


text \<open>
  Claim C4, amended. When an accept succeeds and a \<^verbatim>\<open>pending_return\<close> ticket of the accepted
  ticket's event and type exists, the oldest such ticket \<open>rt\<close> is refunded. With \<open>p\<close> the price
  of its original transaction, below \<open>10 ^ 21\<close> in magnitude, the fee is the number
  \<^verbatim>\<open>parseFloat(p) * 0.02\<close> and the refund the number \<^verbatim>\<open>parseFloat(p) - fee\<close>; the answer carries
  the refund and the fee rounded to two decimals. From a price of a cent on, the refund is
  within \<open>p / 2 ^ 51\<close> of 98% of the price and the answered fee within \<open>0.005 + p / 2 ^ 56\<close> of
  2%; at 50.00 they are exactly 49 and 1. The transaction appended for the owner of \<open>rt\<close> has
  status \<^verbatim>\<open>refunded\<close>, method \<^verbatim>\<open>waitlist_return\<close> and the negative refund as its amount, and
  \<open>rt\<close> is marked \<^verbatim>\<open>refunded\<close>.
\<close>

theorem accept_refund_98_percent_rounded:
  assumes acc: "acceptTicket txid now s = (Inr r, s')"
    and pr: "pending_return_of_type (t_event_id (accepted_ticket r))
               (t_ticket_type_id (accepted_ticket r)) s = Some rt"
  shows "\<exists>otx. find (\<lambda>x. tx_id x = t_transaction_id rt) (transactions s) = Some otx
           \<and> refunded_ticket_id r = Some (t_id rt)
           \<and> (\<bar>tx_total_price otx\<bar> < 10 ^ 21 \<longrightarrow>
                 refund_amount r =
                   to_double (to_double (tx_total_price otx)
                              - to_double (to_double (tx_total_price otx) * to_double (2 / 100)))
               \<and> platform_fee r =
                   to_fixed2 (to_double (to_double (tx_total_price otx) * to_double (2 / 100))))
           \<and> (1 / 100 \<le> tx_total_price otx \<and> tx_total_price otx < 10 ^ 21 \<longrightarrow>
                 \<bar>refund_amount r - 98 / 100 * tx_total_price otx\<bar> \<le> tx_total_price otx / 2 ^ 51
               \<and> \<bar>platform_fee r - 2 / 100 * tx_total_price otx\<bar>
                    \<le> 1 / 200 + tx_total_price otx / 2 ^ 56)
           \<and> (tx_total_price otx = 50 \<longrightarrow> refund_amount r = 49 \<and> platform_fee r = 1)
           \<and> transactions s' =
               map (\<lambda>x. if tx_id x = txid then x\<lparr>tx_status := Completed\<rparr> else x) (transactions s)
               @ [\<lparr>tx_id = next_transaction_id s, tx_user_id = t_user_id rt,
                    tx_total_price = - refund_amount r,
                    tx_status = TxRefunded, tx_payment_method = WaitlistReturn\<rparr>]
           \<and> (\<forall>t\<in>set (tickets s'). t_id t = t_id rt \<longrightarrow> t_status t = Refunded)"
proof -
  from acc obtain transaction txs where txs:
    "filter (\<lambda>x. tx_id x = txid \<and> tx_status x = Pending \<and> tx_payment_method x = Waitlist)
       (transactions s) = transaction # txs"
    by (auto simp: acceptTicket_def split: list.splits)
  from acc txs obtain ticket ts where ts:
    "filter (\<lambda>t. t_transaction_id t = txid \<and> t_status t = Reserved) (tickets s) = ticket # ts"
    by (auto simp: acceptTicket_def split: list.splits)
  from acc txs ts have live: "\<not> offer_expired (tx_user_id transaction) (t_event_id ticket) now s"
    by (auto simp: acceptTicket_def split: if_splits)
  let ?s2 = "set_ticket_status (t_id ticket) Active (set_transaction_status txid Completed s)"
  from acc txs ts live have tk: "accepted_ticket r = ticket"
    by (auto simp: acceptTicket_def Let_def split: option.splits list.splits)
  with pr have pr': "pending_return_of_type (t_event_id ticket) (t_ticket_type_id ticket) s = Some rt"
    by simp
  from acc txs ts live pr' obtain originalTx os where os:
    "filter (\<lambda>x. tx_id x = t_transaction_id rt) (transactions ?s2) = originalTx # os"
    by (auto simp: acceptTicket_def Let_def split: list.splits)
  from filter_Cons_find [OF os]
  have "find (\<lambda>x. tx_id x = t_transaction_id rt)
          (map (\<lambda>x. if tx_id x = txid then x\<lparr>tx_status := Completed\<rparr> else x) (transactions s))
        = Some originalTx"
    by (simp add: set_ticket_status_def set_transaction_status_def)
  then obtain otx where otx: "find (\<lambda>x. tx_id x = t_transaction_id rt) (transactions s) = Some otx"
    and price: "tx_total_price originalTx = tx_total_price otx"
    by (auto simp: find_map_status)
  define p where "p = tx_total_price otx"
  define F where "F = to_double (to_double p * to_double (2 / 100))"
  define R where "R = to_double (to_double p - F)"
  from acc txs ts live pr' os have r:
    "r = \<lparr>accepted_ticket = ticket, refunded_ticket_id = Some (t_id rt),
          refund_amount = R, platform_fee = to_fixed2 F\<rparr>"
    and s': "s' = delete_waitlist_user_event (tx_user_id transaction) (t_event_id ticket)
                   (snd (insert_transaction (t_user_id rt) (- R)
                      TxRefunded WaitlistReturn (set_ticket_status (t_id rt) Refunded ?s2)))"
    by (auto simp: acceptTicket_def Let_def price R_def F_def p_def)
  have c2: "refunded_ticket_id r = Some (t_id rt)"
    by (simp add: r)
  have c3: "\<bar>p\<bar> < 10 ^ 21 \<longrightarrow>
      refund_amount r = to_double (to_double p - to_double (to_double p * to_double (2 / 100)))
      \<and> platform_fee r = to_fixed2 (to_double (to_double p * to_double (2 / 100)))"
    unfolding r R_def F_def by simp
  have c4: "1 / 100 \<le> p \<and> p < 10 ^ 21 \<longrightarrow>
      \<bar>refund_amount r - 98 / 100 * p\<bar> \<le> p / 2 ^ 51
      \<and> \<bar>platform_fee r - 2 / 100 * p\<bar> \<le> 1 / 200 + p / 2 ^ 56"
  proof (intro impI)
    assume "1 / 100 \<le> p \<and> p < 10 ^ 21"
    then have "1 / 100 \<le> p" ..
    from refund_arithmetic_error [OF this]
    have b: "\<bar>R - 98 / 100 * p\<bar> \<le> p / 2 ^ 51" "\<bar>F - 2 / 100 * p\<bar> \<le> p / 2 ^ 56"
      unfolding R_def F_def by blast+
    from to_fixed2_error [of F] b(2)
    have "\<bar>to_fixed2 F - 2 / 100 * p\<bar> \<le> 1 / 200 + p / 2 ^ 56"
      by linarith
    with b(1) show "\<bar>refund_amount r - 98 / 100 * p\<bar> \<le> p / 2 ^ 51
      \<and> \<bar>platform_fee r - 2 / 100 * p\<bar> \<le> 1 / 200 + p / 2 ^ 56"
      unfolding r by simp
  qed
  have c5: "p = 50 \<longrightarrow> refund_amount r = 49 \<and> platform_fee r = 1"
  proof
    assume p: "p = 50"
    have F: "F = 1"
      unfolding F_def p by (simp only: double_50 two_percent)
    have "R = to_double (50 - 1)"
      unfolding R_def p F by (simp only: double_50)
    then have "R = 49"
      by (simp add: double_50)
    with F show "refund_amount r = 49 \<and> platform_fee r = 1"
      by (simp add: r double_50)
  qed
  have c6: "transactions s' =
      map (\<lambda>x. if tx_id x = txid then x\<lparr>tx_status := Completed\<rparr> else x) (transactions s)
      @ [\<lparr>tx_id = next_transaction_id s, tx_user_id = t_user_id rt,
           tx_total_price = - refund_amount r,
           tx_status = TxRefunded, tx_payment_method = WaitlistReturn\<rparr>]"
    by (simp add: r s' delete_waitlist_user_event_def insert_transaction_def set_ticket_status_def
        set_transaction_status_def)
  have c7: "\<forall>t\<in>set (tickets s'). t_id t = t_id rt \<longrightarrow> t_status t = Refunded"
    by (auto simp: s' delete_waitlist_user_event_def insert_transaction_def set_ticket_status_def
        set_transaction_status_def)
  show ?thesis
    by (intro exI [of _ otx] conjI otx c2 c3 [unfolded p_def] c4 [unfolded p_def]
        c5 [unfolded p_def] c6 c7)
qed


text \<open>The scenario of the specification: a price of 50.00 gives a refund of 49.00 and a fee of 1.00.\<close>

theorem accept_refund_98_percent_rounded_witness:
  "fst (acceptTicket 2 1500 store_offered)
     = Inr \<lparr>accepted_ticket =
               \<lparr>t_id = 2, t_transaction_id = 2, t_ticket_type_id = 1, t_event_id = 1,
                 t_user_id = 3, t_status = Reserved, t_issued_at = 1000\<rparr>,
             refunded_ticket_id = Some 1, refund_amount = 49, platform_fee = 1\<rparr>
   \<and> last (transactions (snd (acceptTicket 2 1500 store_offered)))
     = \<lparr>tx_id = 3, tx_user_id = 2, tx_total_price = - 49, tx_status = TxRefunded,
         tx_payment_method = WaitlistReturn\<rparr>"
proof -
  let ?t2 = "\<lparr>t_id = 2, t_transaction_id = 2, t_ticket_type_id = 1, t_event_id = 1,
               t_user_id = 3, t_status = Reserved, t_issued_at = 1000\<rparr>"
  let ?rt = "\<lparr>t_id = 1, t_transaction_id = 1, t_ticket_type_id = 1, t_event_id = 1,
               t_user_id = 2, t_status = PendingReturn, t_issued_at = 10\<rparr>"
  obtain r s' where acc: "acceptTicket 2 1500 store_offered = (Inr r, s')"
    and r: "accepted_ticket r = ?t2"
    by (simp add: store_offered_def acceptTicket_def offer_expired_def pending_return_of_type_def
        statement_defs Let_def)
  have pr: "pending_return_of_type (t_event_id (accepted_ticket r))
              (t_ticket_type_id (accepted_ticket r)) store_offered = Some ?rt"
    by (simp add: r store_offered_def pending_return_of_type_def)
  from accept_refund_98_percent_rounded [OF acc pr] obtain otx where
    otx: "find (\<lambda>x. tx_id x = 1) (transactions store_offered) = Some otx"
    and rid: "refunded_ticket_id r = Some 1"
    and fifty: "tx_total_price otx = 50 \<longrightarrow> refund_amount r = 49 \<and> platform_fee r = 1"
    and tr: "transactions s' =
               map (\<lambda>x. if tx_id x = 2 then x\<lparr>tx_status := Completed\<rparr> else x)
                 (transactions store_offered)
               @ [\<lparr>tx_id = next_transaction_id store_offered, tx_user_id = 2,
                    tx_total_price = - refund_amount r,
                    tx_status = TxRefunded, tx_payment_method = WaitlistReturn\<rparr>]"
    by auto
  from otx have "tx_total_price otx = 50"
    by (auto simp: store_offered_def)
  with fifty have amounts: "refund_amount r = 49" "platform_fee r = 1"
    by simp_all
  with tr have "last (transactions s')
     = \<lparr>tx_id = 3, tx_user_id = 2, tx_total_price = - 49, tx_status = TxRefunded,
         tx_payment_method = WaitlistReturn\<rparr>"
    by (simp add: store_offered_def)
  moreover from r rid amounts have "r = \<lparr>accepted_ticket = ?t2, refunded_ticket_id = Some 1,
      refund_amount = 49, platform_fee = 1\<rparr>"
    by (cases r) simp
  ultimately show ?thesis
    by (simp add: acc)
qed

section \<open>The two refund paths\<close>

lemma assigned_iff:
  "assigned (fst (assignTicketToWaitlist ev tt now s)) \<longleftrightarrow>
     (\<exists>w\<in>set (waitlist s). w_event_id w = ev \<and> w_offered_at w = None)"
proof (cases "next_unclaimed ev s")
  case None
  then show ?thesis using next_unclaimed_None [of ev s] by (auto simp: assign_None)
next
  case (Some c)
  then show ?thesis using next_unclaimed_Some [OF Some] by (auto simp: assign_Some)
qed

lemma next_unclaimed_cong: "waitlist s1 = waitlist s2 \<Longrightarrow> next_unclaimed ev s1 = next_unclaimed ev s2"
  by (simp add: next_unclaimed_def)

lemma assign_waitlist_cong:
  "waitlist s1 = waitlist s2 \<Longrightarrow>
   waitlist (snd (assignTicketToWaitlist ev tt now s1))
     = waitlist (snd (assignTicketToWaitlist ev tt now s2))"
  using next_unclaimed_cong [of s1 s2 ev]
  by (cases "next_unclaimed ev s2") (simp_all add: assign_None assign_Some)

lemma assign_tickets_prefix:
  "take (length (tickets s)) (tickets (snd (assignTicketToWaitlist ev tt now s))) = tickets s"
  by (cases "next_unclaimed ev s") (simp_all add: assign_None assign_Some)

lemma assign_transactions_prefix:
  "take (length (transactions s)) (transactions (snd (assignTicketToWaitlist ev tt now s)))
     = transactions s"
  by (cases "next_unclaimed ev s") (simp_all add: assign_None assign_Some)

text \<open>
  Claim C6. A self-service return of a ticket that is not active, or whose event is not
  sold out, is rejected and the store stays as it was (as it does when the ticket or its
  event is missing). The return succeeds exactly when the ticket is active and the event is
  sold out; then the ticket row becomes \<^verbatim>\<open>pending_return\<close>, the offer engine runs on that
  store, the answer says whether an unclaimed entry was waiting, and no counter moves.
\<close>

theorem refund_only_when_sold_out:
  "(ticket_with_event i s = None \<longrightarrow> refundTicket i now s = (Inl NotFound, s))
   \<and> (\<forall>t e. ticket_with_event i s = Some (t, e) \<longrightarrow>
         (t_status t \<noteq> Active \<longrightarrow> refundTicket i now s = (Inl InvalidState, s))
       \<and> (t_status t = Active \<and> e_tickets_sold e < e_total_tickets e \<longrightarrow>
            refundTicket i now s = (Inl NotSoldOut, s))
       \<and> (t_status t = Active \<and> e_total_tickets e \<le> e_tickets_sold e \<longrightarrow>
            (\<exists>r. refundTicket i now s =
                    (Inr r, snd (assignTicketToWaitlist (t_event_id t) (t_ticket_type_id t) now
                                   (set_ticket_status i PendingReturn s)))
              \<and> r_assigned_to_waitlist r =
                   (\<exists>w\<in>set (waitlist s). w_event_id w = t_event_id t \<and> w_offered_at w = None))
            \<and> take (length (tickets s)) (tickets (snd (refundTicket i now s)))
                = map (\<lambda>x. if t_id x = i then x\<lparr>t_status := PendingReturn\<rparr> else x) (tickets s)
            \<and> waitlist (snd (refundTicket i now s))
                = waitlist (snd (assignTicketToWaitlist (t_event_id t) (t_ticket_type_id t) now s))
            \<and> events (snd (refundTicket i now s)) = events s
            \<and> ticket_types (snd (refundTicket i now s)) = ticket_types s))
   \<and> (\<forall>r s'. refundTicket i now s = (Inr r, s') \<longrightarrow>
         (\<exists>t e. ticket_with_event i s = Some (t, e) \<and> t_status t = Active
            \<and> e_total_tickets e \<le> e_tickets_sold e))"
proof (intro conjI allI impI)
  fix r s'
  assume "refundTicket i now s = (Inr r, s')"
  then show "\<exists>t e. ticket_with_event i s = Some (t, e) \<and> t_status t = Active
            \<and> e_total_tickets e \<le> e_tickets_sold e"
    by (auto simp: refundTicket_def Let_def split: option.splits if_splits prod.splits)
next
  assume "ticket_with_event i s = None"
  then show "refundTicket i now s = (Inl NotFound, s)"
    by (simp add: refundTicket_def)
next
  fix t e
  assume te: "ticket_with_event i s = Some (t, e)"
  {
    assume "t_status t \<noteq> Active"
    with te show "refundTicket i now s = (Inl InvalidState, s)"
      by (simp add: refundTicket_def)
  }
  {
    assume "t_status t = Active \<and> e_tickets_sold e < e_total_tickets e"
    with te show "refundTicket i now s = (Inl NotSoldOut, s)"
      by (simp add: refundTicket_def)
  }
  assume ok: "t_status t = Active \<and> e_total_tickets e \<le> e_tickets_sold e"
  let ?s1 = "set_ticket_status i PendingReturn s"
  let ?a = "assignTicketToWaitlist (t_event_id t) (t_ticket_type_id t) now ?s1"
  have wl: "waitlist ?s1 = waitlist s"
    by (simp add: set_ticket_status_def)
  from te ok have res: "refundTicket i now s =
      (Inr \<lparr>r_ticket = find (\<lambda>t. t_id t = i) (tickets ?s1),
             r_assigned_to_waitlist = assigned (fst ?a)\<rparr>, snd ?a)"
    by (simp add: refundTicket_def Let_def split_beta)
  have asg: "assigned (fst ?a) =
      (\<exists>w\<in>set (waitlist s). w_event_id w = t_event_id t \<and> w_offered_at w = None)"
    by (simp add: assigned_iff wl)
  from res asg
  show "\<exists>r. refundTicket i now s = (Inr r, snd ?a)
          \<and> r_assigned_to_waitlist r =
              (\<exists>w\<in>set (waitlist s). w_event_id w = t_event_id t \<and> w_offered_at w = None)"
    by simp
  have "take (length (tickets ?s1)) (tickets (snd ?a)) = tickets ?s1"
    by (rule assign_tickets_prefix)
  then show "take (length (tickets s)) (tickets (snd (refundTicket i now s)))
      = map (\<lambda>x. if t_id x = i then x\<lparr>t_status := PendingReturn\<rparr> else x) (tickets s)"
    by (simp add: res set_ticket_status_def)
  show "waitlist (snd (refundTicket i now s))
      = waitlist (snd (assignTicketToWaitlist (t_event_id t) (t_ticket_type_id t) now s))"
    by (simp add: res assign_waitlist_cong [OF wl])
  show "events (snd (refundTicket i now s)) = events s"
    by (simp add: res assign_events set_ticket_status_def)
  show "ticket_types (snd (refundTicket i now s)) = ticket_types s"
    by (simp add: res assign_ticket_types set_ticket_status_def)
qed


theorem refund_only_when_sold_out_witness:
  "refundTicket 1 1000 store_refunded = (Inl InvalidState, store_refunded)
   \<and> refundTicket 1 1000 store_open = (Inl NotSoldOut, store_open)
   \<and> map t_status (take 1 (tickets (snd (refundTicket 1 1000 store_sold_out)))) = [PendingReturn]
   \<and> events (snd (refundTicket 1 1000 store_sold_out)) = events store_sold_out"
proof -
  have a: "ticket_with_event 1 store_refunded =
      Some (\<lparr>t_id = 1, t_transaction_id = 1, t_ticket_type_id = 1, t_event_id = 1,
              t_user_id = 2, t_status = Refunded, t_issued_at = 10\<rparr>,
            \<lparr>e_id = 1, e_organizer_id = 9, e_total_tickets = 2, e_tickets_sold = 0,
              e_start_datetime = 100000, e_end_datetime = None\<rparr>)"
    by (simp add: ticket_with_event_def store_refunded_def)
  have b: "ticket_with_event 1 store_open =
      Some (\<lparr>t_id = 1, t_transaction_id = 1, t_ticket_type_id = 1, t_event_id = 1,
              t_user_id = 2, t_status = Active, t_issued_at = 10\<rparr>,
            \<lparr>e_id = 1, e_organizer_id = 9, e_total_tickets = 2, e_tickets_sold = 1,
              e_start_datetime = 100000, e_end_datetime = None\<rparr>)"
    by (simp add: ticket_with_event_def store_open_def)
  have c: "ticket_with_event 1 store_sold_out =
      Some (\<lparr>t_id = 1, t_transaction_id = 1, t_ticket_type_id = 1, t_event_id = 1,
              t_user_id = 2, t_status = Active, t_issued_at = 10\<rparr>,
            \<lparr>e_id = 1, e_organizer_id = 9, e_total_tickets = 1, e_tickets_sold = 1,
              e_start_datetime = 100000, e_end_datetime = None\<rparr>)"
    by (simp add: ticket_with_event_def store_sold_out_def)
  have tk: "tickets store_sold_out = [\<lparr>t_id = 1, t_transaction_id = 1, t_ticket_type_id = 1, t_event_id = 1,
              t_user_id = 2, t_status = Active, t_issued_at = 10\<rparr>]"
    by (simp add: store_sold_out_def)
  from refund_only_when_sold_out [of 1 store_refunded 1000] a
  have 1: "refundTicket 1 1000 store_refunded = (Inl InvalidState, store_refunded)"
    by simp
  from refund_only_when_sold_out [of 1 store_open 1000] b
  have 2: "refundTicket 1 1000 store_open = (Inl NotSoldOut, store_open)"
    by simp
  from refund_only_when_sold_out [of 1 store_sold_out 1000] c tk
  have 3: "map t_status (take 1 (tickets (snd (refundTicket 1 1000 store_sold_out)))) = [PendingReturn]
    \<and> events (snd (refundTicket 1 1000 store_sold_out)) = events store_sold_out"
    by simp
  from 1 2 3 show ?thesis
    by simp
qed

text \<open>
  Claim C5. An organizer refund of an active ticket by the organizer of its event succeeds:
  the ticket row becomes \<^verbatim>\<open>refunded\<close>, the event's and the ticket type's sold counters go down
  by one, the ticket's transaction becomes \<^verbatim>\<open>refunded\<close>. If the event was sold out before the
  refund (sold at least total) the store is then handed to the offer engine; if it was not,
  the waitlist is untouched and no offer is created, whoever is waiting.
\<close>

theorem organizer_refund_effects:
  assumes te: "ticket_with_event i s = Some (t, e)"
    and org: "e_organizer_id e = organizer_id"
    and act: "t_status t = Active"
  shows "(\<exists>r. organizerRefund i organizer_id now s = (Inr r, snd (organizerRefund i organizer_id now s))
           \<and> o_waitlist_assigned r =
               (e_total_tickets e \<le> e_tickets_sold e
                \<and> (\<exists>w\<in>set (waitlist s). w_event_id w = t_event_id t \<and> w_offered_at w = None)))
    \<and> take (length (tickets s)) (tickets (snd (organizerRefund i organizer_id now s)))
           = map (\<lambda>x. if t_id x = i then x\<lparr>t_status := Refunded\<rparr> else x) (tickets s)
    \<and> events (snd (organizerRefund i organizer_id now s))
           = map (\<lambda>x. if e_id x = t_event_id t then x\<lparr>e_tickets_sold := e_tickets_sold x - 1\<rparr> else x)
               (events s)
    \<and> ticket_types (snd (organizerRefund i organizer_id now s))
           = map (\<lambda>x. if tt_id x = t_ticket_type_id t
                        then x\<lparr>tt_tickets_sold := tt_tickets_sold x - 1\<rparr> else x)
               (ticket_types s)
    \<and> take (length (transactions s)) (transactions (snd (organizerRefund i organizer_id now s)))
           = map (\<lambda>x. if tx_id x = t_transaction_id t then x\<lparr>tx_status := TxRefunded\<rparr> else x)
               (transactions s)
    \<and> (e_total_tickets e \<le> e_tickets_sold e \<longrightarrow>
           snd (organizerRefund i organizer_id now s)
             = snd (assignTicketToWaitlist (t_event_id t) (t_ticket_type_id t) now
                 (set_transaction_status (t_transaction_id t) TxRefunded
                   (decrement_type_sold (t_ticket_type_id t)
                     (decrement_event_sold (t_event_id t)
                       (set_ticket_status i Refunded s)))))
           \<and> waitlist (snd (organizerRefund i organizer_id now s))
             = waitlist (snd (assignTicketToWaitlist (t_event_id t) (t_ticket_type_id t) now s)))
    \<and> (e_tickets_sold e < e_total_tickets e \<longrightarrow>
           waitlist (snd (organizerRefund i organizer_id now s)) = waitlist s
           \<and> length (tickets (snd (organizerRefund i organizer_id now s))) = length (tickets s)
           \<and> length (transactions (snd (organizerRefund i organizer_id now s)))
               = length (transactions s))"
proof -
  let ?s4 = "set_transaction_status (t_transaction_id t) TxRefunded
               (decrement_type_sold (t_ticket_type_id t)
                 (decrement_event_sold (t_event_id t) (set_ticket_status i Refunded s)))"
  let ?a = "assignTicketToWaitlist (t_event_id t) (t_ticket_type_id t) now ?s4"
  let ?so = "e_total_tickets e \<le> e_tickets_sold e"
  have wl: "waitlist ?s4 = waitlist s"
    by (simp add: set_transaction_status_def decrement_type_sold_def decrement_event_sold_def
        set_ticket_status_def)
  have tk: "tickets ?s4 = map (\<lambda>x. if t_id x = i then x\<lparr>t_status := Refunded\<rparr> else x) (tickets s)"
    by (simp add: set_transaction_status_def decrement_type_sold_def decrement_event_sold_def
        set_ticket_status_def)
  have tr: "transactions ?s4 =
      map (\<lambda>x. if tx_id x = t_transaction_id t then x\<lparr>tx_status := TxRefunded\<rparr> else x)
        (transactions s)"
    by (simp add: set_transaction_status_def decrement_type_sold_def decrement_event_sold_def
        set_ticket_status_def)
  have ev: "events ?s4 =
      map (\<lambda>x. if e_id x = t_event_id t then x\<lparr>e_tickets_sold := e_tickets_sold x - 1\<rparr> else x)
        (events s)"
    by (simp add: set_transaction_status_def decrement_type_sold_def decrement_event_sold_def
        set_ticket_status_def)
  have tt: "ticket_types ?s4 =
      map (\<lambda>x. if tt_id x = t_ticket_type_id t then x\<lparr>tt_tickets_sold := tt_tickets_sold x - 1\<rparr>
                else x) (ticket_types s)"
    by (simp add: set_transaction_status_def decrement_type_sold_def decrement_event_sold_def
        set_ticket_status_def)
  from te org act have res: "organizerRefund i organizer_id now s =
      (Inr \<lparr>o_ticket_id = i, o_event_id = t_event_id t,
             o_tickets_available = e_total_tickets e - (e_tickets_sold e - 1),
             o_waitlist_assigned = (?so \<and> assigned (fst ?a))\<rparr>,
       if ?so then snd ?a else ?s4)"
    by (simp add: organizerRefund_def Let_def split_beta)
  have asg: "assigned (fst ?a) =
      (\<exists>w\<in>set (waitlist s). w_event_id w = t_event_id t \<and> w_offered_at w = None)"
    by (simp add: assigned_iff wl)
  have c1: "\<exists>r. organizerRefund i organizer_id now s = (Inr r, snd (organizerRefund i organizer_id now s))
           \<and> o_waitlist_assigned r =
               (?so \<and> (\<exists>w\<in>set (waitlist s). w_event_id w = t_event_id t \<and> w_offered_at w = None))"
    using asg by (simp add: res)
  have "take (length (tickets ?s4)) (tickets (snd ?a)) = tickets ?s4"
    by (rule assign_tickets_prefix)
  then have c2: "take (length (tickets s)) (tickets (snd (organizerRefund i organizer_id now s)))
           = map (\<lambda>x. if t_id x = i then x\<lparr>t_status := Refunded\<rparr> else x) (tickets s)"
    by (simp add: res tk)
  have c3: "events (snd (organizerRefund i organizer_id now s))
           = map (\<lambda>x. if e_id x = t_event_id t then x\<lparr>e_tickets_sold := e_tickets_sold x - 1\<rparr> else x)
               (events s)"
    by (simp add: res assign_events ev)
  have c4: "ticket_types (snd (organizerRefund i organizer_id now s))
           = map (\<lambda>x. if tt_id x = t_ticket_type_id t
                        then x\<lparr>tt_tickets_sold := tt_tickets_sold x - 1\<rparr> else x)
               (ticket_types s)"
    by (simp add: res assign_ticket_types tt)
  have "take (length (transactions ?s4)) (transactions (snd ?a)) = transactions ?s4"
    by (rule assign_transactions_prefix)
  then have c5: "take (length (transactions s)) (transactions (snd (organizerRefund i organizer_id now s)))
           = map (\<lambda>x. if tx_id x = t_transaction_id t then x\<lparr>tx_status := TxRefunded\<rparr> else x)
               (transactions s)"
    by (simp add: res tr)
  have c6: "?so \<longrightarrow>
           snd (organizerRefund i organizer_id now s) = snd ?a
           \<and> waitlist (snd (organizerRefund i organizer_id now s))
             = waitlist (snd (assignTicketToWaitlist (t_event_id t) (t_ticket_type_id t) now s))"
    by (simp add: res assign_waitlist_cong [OF wl])
  have c7: "e_tickets_sold e < e_total_tickets e \<longrightarrow>
           waitlist (snd (organizerRefund i organizer_id now s)) = waitlist s
           \<and> length (tickets (snd (organizerRefund i organizer_id now s))) = length (tickets s)
           \<and> length (transactions (snd (organizerRefund i organizer_id now s)))
               = length (transactions s)"
    by (simp add: res wl tk tr)
  show ?thesis
    by (intro conjI c1 c2 c3 c4 c5 c6 c7)
qed

theorem organizer_refund_effects_witness:
  "map e_tickets_sold (events (snd (organizerRefund 1 9 1000 store_sold_out))) = [0]
   \<and> map tt_tickets_sold (ticket_types (snd (organizerRefund 1 9 1000 store_sold_out))) = [0]
   \<and> map t_status (take 1 (tickets (snd (organizerRefund 1 9 1000 store_sold_out)))) = [Refunded]
   \<and> waitlist (snd (organizerRefund 1 9 1000 store_open)) = waitlist store_open"
proof -
  have b: "ticket_with_event 1 store_open =
      Some (\<lparr>t_id = 1, t_transaction_id = 1, t_ticket_type_id = 1, t_event_id = 1,
              t_user_id = 2, t_status = Active, t_issued_at = 10\<rparr>,
            \<lparr>e_id = 1, e_organizer_id = 9, e_total_tickets = 2, e_tickets_sold = 1,
              e_start_datetime = 100000, e_end_datetime = None\<rparr>)"
    by (simp add: ticket_with_event_def store_open_def)
  have c: "ticket_with_event 1 store_sold_out =
      Some (\<lparr>t_id = 1, t_transaction_id = 1, t_ticket_type_id = 1, t_event_id = 1,
              t_user_id = 2, t_status = Active, t_issued_at = 10\<rparr>,
            \<lparr>e_id = 1, e_organizer_id = 9, e_total_tickets = 1, e_tickets_sold = 1,
              e_start_datetime = 100000, e_end_datetime = None\<rparr>)"
    by (simp add: ticket_with_event_def store_sold_out_def)
  have org: "e_organizer_id \<lparr>e_id = 1, e_organizer_id = 9, e_total_tickets = 1, e_tickets_sold = 1,
              e_start_datetime = 100000, e_end_datetime = None\<rparr> = 9"
    and org': "e_organizer_id \<lparr>e_id = 1, e_organizer_id = 9, e_total_tickets = 2, e_tickets_sold = 1,
              e_start_datetime = 100000, e_end_datetime = None\<rparr> = 9"
    and act: "t_status \<lparr>t_id = 1, t_transaction_id = 1, t_ticket_type_id = 1, t_event_id = 1,
              t_user_id = 2, t_status = Active, t_issued_at = 10\<rparr> = Active"
    by simp_all
  note sold_out = organizer_refund_effects [OF c org act, of 1000]
  note still_open = organizer_refund_effects [OF b org' act, of 1000]
  from sold_out [THEN conjunct2, THEN conjunct2, THEN conjunct1]
  have ev: "map e_tickets_sold (events (snd (organizerRefund 1 9 1000 store_sold_out))) = [0]"
    by (simp add: store_sold_out_def)
  from sold_out [THEN conjunct2, THEN conjunct2, THEN conjunct2, THEN conjunct1]
  have tt: "map tt_tickets_sold (ticket_types (snd (organizerRefund 1 9 1000 store_sold_out))) = [0]"
    by (simp add: store_sold_out_def)
  from sold_out [THEN conjunct2, THEN conjunct1]
  have tk: "map t_status (take 1 (tickets (snd (organizerRefund 1 9 1000 store_sold_out)))) = [Refunded]"
    by (simp add: store_sold_out_def)
  note 1 = ev tt tk
  from still_open [THEN conjunct2, THEN conjunct2, THEN conjunct2, THEN conjunct2,
      THEN conjunct2, THEN conjunct2]
  have 2: "waitlist (snd (organizerRefund 1 9 1000 store_open)) = waitlist store_open"
    by simp
  from 1 2 show ?thesis
    by simp
qed

section \<open>The expiration sweep\<close>

lemma expire_row_fields:
  "tickets (expire_row r s) = filter (\<lambda>t. t_id t \<noteq> t_id (fst r)) (tickets s)"
  "transactions (expire_row r s) =
     map (\<lambda>x. if tx_id x = t_transaction_id (fst r) then x\<lparr>tx_status := Expired\<rparr> else x)
       (transactions s)"
  "waitlist (expire_row r s) =
     (if snd r \<noteq> 0 then filter (\<lambda>w. w_id w \<noteq> snd r) (waitlist s) else waitlist s)"
  "next_ticket_id (expire_row r s) = next_ticket_id s"
  "next_transaction_id (expire_row r s) = next_transaction_id s"
  "events (expire_row r s) = events s"
  "ticket_types (expire_row r s) = ticket_types s"
  by (simp_all add: expire_row_def statement_defs Let_def)

lemma ids_fresh_iff:
  "ids_fresh s \<longleftrightarrow>
     (\<forall>t\<in>set (tickets s). t_id t < next_ticket_id s \<and> t_transaction_id t < next_transaction_id s)
     \<and> (\<forall>x\<in>set (transactions s). tx_id x < next_transaction_id s)"
  by (simp add: ids_fresh_def list_all_iff)

lemma expire_row_fresh: "ids_fresh s \<Longrightarrow> ids_fresh (expire_row r s)"
  by (auto simp: ids_fresh_iff expire_row_fields)

lemma assign_fresh: "ids_fresh s \<Longrightarrow> ids_fresh (snd (assignTicketToWaitlist ev tt now s))"
  by (cases "next_unclaimed ev s") (auto simp: assign_None assign_Some ids_fresh_iff less_Suc_eq)

lemma cleanup_row_fresh: "ids_fresh s \<Longrightarrow> ids_fresh (cleanup_row now r s)"
  by (simp add: cleanup_row_def assign_fresh expire_row_fresh)

lemma expire_row_one_entry:
  "one_entry_per_user_event s \<Longrightarrow> one_entry_per_user_event (expire_row r s)"
  by (simp add: one_entry_per_user_event_def expire_row_fields distinct_map_filter)

lemma stamp_keys:
  "(\<lambda>w. (w_user_id w, w_event_id w)) \<circ>
     (\<lambda>w. if w_id w = i
           then w\<lparr>w_offered_at := Some now, w_reservation_expires_at := Some (now + 1800)\<rparr>
           else w)
   = (\<lambda>w. (w_user_id w, w_event_id w))"
  by (auto simp: fun_eq_iff)

lemma assign_one_entry:
  "one_entry_per_user_event s \<Longrightarrow>
   one_entry_per_user_event (snd (assignTicketToWaitlist ev tt now s))"
  by (cases "next_unclaimed ev s")
    (simp_all add: assign_None assign_Some one_entry_per_user_event_def stamp_keys)

lemma cleanup_row_one_entry:
  "one_entry_per_user_event s \<Longrightarrow> one_entry_per_user_event (cleanup_row now r s)"
  by (simp add: cleanup_row_def assign_one_entry expire_row_one_entry)

lemma one_entry_same:
  assumes "one_entry_per_user_event s" "w \<in> set (waitlist s)" "c \<in> set (waitlist s)"
    and "w_user_id w = w_user_id c" "w_event_id w = w_event_id c"
  shows "w = c"
proof -
  from assms(1) have "inj_on (\<lambda>w. (w_user_id w, w_event_id w)) (set (waitlist s))"
    by (simp add: one_entry_per_user_event_def distinct_map)
  with assms(2-) show ?thesis
    by (auto dest: inj_onD)
qed

lemma ticket_expired_expire_row:
  assumes "t \<in> set (tickets (expire_row r s))" "ticket_expired now2 (expire_row r s) t"
  shows "t \<in> set (tickets s) \<and> t_id t \<noteq> t_id (fst r) \<and> ticket_expired now2 s t"
proof -
  from assms(1) have t: "t \<in> set (tickets s)" "t_id t \<noteq> t_id (fst r)"
    by (simp_all add: expire_row_fields)
  from assms(2) have res: "t_status t = Reserved"
    by (simp add: ticket_expired_def)
  from assms(2) obtain x where "x \<in> set (transactions (expire_row r s))"
    "tx_id x = t_transaction_id t" "tx_status x = Pending"
    by (auto simp: ticket_expired_def)
  then have tx: "\<exists>x\<in>set (transactions s). tx_id x = t_transaction_id t \<and> tx_status x = Pending"
    by (auto simp: expire_row_fields split: if_splits)
  from assms(2) obtain w where "w \<in> set (waitlist (expire_row r s))"
    "w_user_id w = t_user_id t" "w_event_id w = t_event_id t" "entry_expired now2 w"
    by (auto simp: ticket_expired_def)
  then have wl: "\<exists>w\<in>set (waitlist s). w_user_id w = t_user_id t \<and> w_event_id w = t_event_id t
      \<and> entry_expired now2 w"
    by (auto simp: expire_row_fields split: if_splits)
  from t res tx wl show ?thesis
    by (simp add: ticket_expired_def)
qed

lemma ticket_expired_assign:
  assumes fresh: "ids_fresh s" and one: "one_entry_per_user_event s"
    and late: "now2 \<le> now + 1800"
    and t: "t \<in> set (tickets (snd (assignTicketToWaitlist ev tt now s)))"
    and ex: "ticket_expired now2 (snd (assignTicketToWaitlist ev tt now s)) t"
  shows "t \<in> set (tickets s) \<and> ticket_expired now2 s t"
proof (cases "next_unclaimed ev s")
  case None
  with t ex show ?thesis by (simp add: assign_None)
next
  case (Some c)
  note c = next_unclaimed_Some [OF Some]
  let ?stamp = "\<lambda>w. if w_id w = w_id c
                     then w\<lparr>w_offered_at := Some now, w_reservation_expires_at := Some (now + 1800)\<rparr>
                     else w"
  let ?s' = "snd (assignTicketToWaitlist ev tt now s)"
  have wl': "waitlist ?s' = map ?stamp (waitlist s)"
    and tx': "transactions ?s' = transactions s @
           [\<lparr>tx_id = next_transaction_id s, tx_user_id = w_user_id c,
             tx_total_price = price_of tt s, tx_status = Pending, tx_payment_method = Waitlist\<rparr>]"
    and tk': "tickets ?s' = tickets s @
           [\<lparr>t_id = next_ticket_id s, t_transaction_id = next_transaction_id s,
             t_ticket_type_id = tt, t_event_id = ev, t_user_id = w_user_id c,
             t_status = Reserved, t_issued_at = now\<rparr>]"
    by (simp_all add: assign_Some [OF Some])
  from ex obtain w where w: "w \<in> set (waitlist ?s')" "w_user_id w = t_user_id t"
    "w_event_id w = t_event_id t" "entry_expired now2 w"
    by (auto simp: ticket_expired_def)
  from w(1) obtain w0 where w0: "w0 \<in> set (waitlist s)" "w = ?stamp w0"
    by (auto simp: wl')
  have not_stamped: "w_id w0 \<noteq> w_id c"
  proof
    assume "w_id w0 = w_id c"
    with w0(2) have "w_reservation_expires_at w = Some (now + 1800)" by simp
    with w(4) late show False by (simp add: entry_expired_def)
  qed
  with w0 have ww: "w = w0" by simp
  have old: "t \<in> set (tickets s)"
  proof (rule ccontr)
    assume "t \<notin> set (tickets s)"
    with t tk' have "t_user_id t = w_user_id c" "t_event_id t = ev"
      by auto
    with w(2,3) ww c have "w_user_id w0 = w_user_id c" "w_event_id w0 = w_event_id c"
      by simp_all
    from one_entry_same [OF one w0(1) _ this] c have "w0 = c" by simp
    with not_stamped show False by simp
  qed
  from ex obtain x where x: "x \<in> set (transactions ?s')" "tx_id x = t_transaction_id t"
    "tx_status x = Pending"
    by (auto simp: ticket_expired_def)
  from old fresh have "t_transaction_id t < next_transaction_id s"
    by (simp add: ids_fresh_iff)
  with x tx' have "x \<in> set (transactions s)"
    by auto
  with x w w0 ww ex old show ?thesis
    by (auto simp: ticket_expired_def)
qed

lemma cleanup_row_step:
  assumes fresh: "ids_fresh s" and one: "one_entry_per_user_event s"
    and late: "now2 \<le> now + 1800"
    and t: "t \<in> set (tickets (cleanup_row now r s))"
    and ex: "ticket_expired now2 (cleanup_row now r s) t"
  shows "t \<in> set (tickets s) \<and> t_id t \<noteq> t_id (fst r) \<and> ticket_expired now2 s t"
proof -
  from ticket_expired_assign [OF expire_row_fresh [OF fresh] expire_row_one_entry [OF one] late]
    t ex
  have "t \<in> set (tickets (expire_row r s)) \<and> ticket_expired now2 (expire_row r s) t"
    by (simp add: cleanup_row_def)
  then show ?thesis
    using ticket_expired_expire_row by blast
qed

lemma fold_cleanup_clean:
  assumes "ids_fresh s" "one_entry_per_user_event s" "now2 \<le> now + 1800"
    and "\<forall>t\<in>set (tickets s). ticket_expired now2 s t \<longrightarrow> t_id t \<in> t_id ` fst ` set rs"
  shows "\<forall>t\<in>set (tickets (fold (cleanup_row now) rs s)).
           \<not> ticket_expired now2 (fold (cleanup_row now) rs s) t"
  using assms
proof (induction rs arbitrary: s)
  case Nil
  then show ?case by simp
next
  case (Cons r rs)
  have "\<forall>t\<in>set (tickets (cleanup_row now r s)).
          ticket_expired now2 (cleanup_row now r s) t \<longrightarrow> t_id t \<in> t_id ` fst ` set rs"
  proof (intro ballI impI)
    fix t
    assume "t \<in> set (tickets (cleanup_row now r s))" "ticket_expired now2 (cleanup_row now r s) t"
    from cleanup_row_step [OF Cons.prems(1-3) this]
    have "t \<in> set (tickets s)" "t_id t \<noteq> t_id (fst r)" "ticket_expired now2 s t"
      by simp_all
    with Cons.prems(4) show "t_id t \<in> t_id ` fst ` set rs"
      by auto
  qed
  from Cons.IH [OF cleanup_row_fresh [OF Cons.prems(1)] cleanup_row_one_entry [OF Cons.prems(2)]
      Cons.prems(3) this]
  show ?case by simp
qed

lemma expired_rows_Nil:
  "expired_rows now s = [] \<longleftrightarrow> (\<forall>t\<in>set (tickets s). \<not> ticket_expired now s t)"
proof -
  have "expired_rows now s = [] \<longleftrightarrow> set (expired_rows now s) = {}"
    by simp
  also have "\<dots> \<longleftrightarrow> (\<forall>t\<in>set (tickets s). \<not> ticket_expired now s t)"
    unfolding expired_rows_def ticket_expired_def by auto
  finally show ?thesis .
qed

lemma expired_rows_ids:
  "t \<in> set (tickets s) \<Longrightarrow> ticket_expired now s t \<Longrightarrow> t \<in> fst ` set (expired_rows now s)"
  unfolding expired_rows_def ticket_expired_def by force

text \<open>
  Claim C7. Take a store whose ids come from the sequences and whose waitlist has at most
  one entry per user and event, sweep it at \<open>now\<close>, and sweep the result again at
  \<open>now2\<close>, soon enough that no offer made by the first pass has run out
  (\<open>now2 \<le> now + 1800\<close>) and with no entry of the store expiring between the two
  passes. The second pass finds no row: it cleans 0 and leaves the store as it is.
\<close>

theorem second_sweep_cleans_nothing:
  assumes fresh: "ids_fresh s" and one: "one_entry_per_user_event s"
    and soon: "now2 \<le> now + 1800"
    and no_new: "\<forall>w\<in>set (waitlist s). entry_expired now2 w \<longrightarrow> entry_expired now w"
  shows "cleanupExpiredReservations now2 (snd (cleanupExpiredReservations now s))
           = (0, snd (cleanupExpiredReservations now s))"
proof -
  let ?rows = "expired_rows now s"
  let ?s' = "snd (cleanupExpiredReservations now s)"
  have s': "?s' = fold (cleanup_row now) ?rows s"
    by (simp add: cleanupExpiredReservations_def Let_def)
  have "\<forall>t\<in>set (tickets s). ticket_expired now2 s t \<longrightarrow> t_id t \<in> t_id ` fst ` set ?rows"
  proof (intro ballI impI)
    fix t
    assume t: "t \<in> set (tickets s)" and ex: "ticket_expired now2 s t"
    from ex no_new have "ticket_expired now s t"
      by (auto simp: ticket_expired_def)
    with t show "t_id t \<in> t_id ` fst ` set ?rows"
      by (intro imageI expired_rows_ids)
  qed
  from fold_cleanup_clean [OF fresh one soon this]
  have "expired_rows now2 ?s' = []"
    by (simp add: s' expired_rows_Nil)
  then show ?thesis
    by (simp add: cleanupExpiredReservations_def)
qed

theorem second_sweep_cleans_nothing_witness:
  "fst (cleanupExpiredReservations 2801 store_offered) = 1
   \<and> cleanupExpiredReservations 2900 (snd (cleanupExpiredReservations 2801 store_offered))
       = (0, snd (cleanupExpiredReservations 2801 store_offered))"
proof -
  have fresh: "ids_fresh store_offered"
    by (simp add: ids_fresh_def store_offered_def)
  have one: "one_entry_per_user_event store_offered"
    by (simp add: one_entry_per_user_event_def store_offered_def)
  have soon: "(2900::int) \<le> 2801 + 1800"
    by simp
  have no_new: "\<forall>w\<in>set (waitlist store_offered). entry_expired 2900 w \<longrightarrow> entry_expired 2801 w"
    by (simp add: entry_expired_def store_offered_def)
  have first: "fst (cleanupExpiredReservations 2801 store_offered) = 1"
    by (simp add: cleanupExpiredReservations_def expired_rows_def entry_expired_def
        store_offered_def)
  from second_sweep_cleans_nothing [OF fresh one soon no_new] first show ?thesis
    by simp
qed

section \<open>Reservations without a waitlist entry\<close>
















end
